theory Spec2Isabelle
  imports Complex_Main
begin

section \<open>Numbers, vectors and objects of the engine\<close>

text \<open>
  The engine (\<^verbatim>\<open>engine.js\<close>) computes with JavaScript numbers. In this first
  embedding a number is either a finite value, idealised as a real (rounding and
  overflow are not part of it; the claims whose truth depends on rounding are settled
  on the second embedding, in double precision, further down), or \<^verbatim>\<open>NaN\<close>, which is
  what arithmetic on \<^verbatim>\<open>undefined\<close> and on \<^verbatim>\<open>NaN\<close> yields. Every division of the source is guarded (by \<^verbatim>\<open>len === 0\<close> or by
  \<^verbatim>\<open>Math.max(lifeSpan, 0.0001)\<close>), so infinities do not arise from these values;
  the quotient by zero is \<^verbatim>\<open>NaN\<close> here and is never reached by the engine
  (lemmas \<open>length_vec_divisor\<close> and \<open>Math_max_divisor\<close>).
\<close>

datatype number = Fin real | NaN

instantiation number :: "{plus, minus, times, uminus, inverse}"
begin

fun plus_number :: "number \<Rightarrow> number \<Rightarrow> number" where
  "Fin a + Fin b = Fin (a + b)"
| "_ + _ = NaN"

fun minus_number :: "number \<Rightarrow> number \<Rightarrow> number" where
  "Fin a - Fin b = Fin (a - b)"
| "_ - _ = NaN"

fun times_number :: "number \<Rightarrow> number \<Rightarrow> number" where
  "Fin a * Fin b = Fin (a * b)"
| "_ * _ = NaN"

fun uminus_number :: "number \<Rightarrow> number" where
  "- Fin a = Fin (- a)"
| "- NaN = NaN"

fun divide_number :: "number \<Rightarrow> number \<Rightarrow> number" where
  "divide_number (Fin a) (Fin b) = (if b = 0 then NaN else Fin (a / b))"
| "divide_number _ _ = NaN"

definition inverse_number :: "number \<Rightarrow> number" where
  "inverse_number x = (case x of Fin a \<Rightarrow> if a = 0 then NaN else Fin (1 / a) | NaN \<Rightarrow> NaN)"

instance ..

end

text \<open>\<^verbatim>\<open>Math.sqrt\<close>, \<^verbatim>\<open>Math.min\<close> and \<^verbatim>\<open>Math.max\<close>: \<^verbatim>\<open>NaN\<close> arguments and negative
  radicands give \<^verbatim>\<open>NaN\<close>.\<close>

fun Math_sqrt :: "number \<Rightarrow> number" where
  "Math_sqrt (Fin a) = (if a < 0 then NaN else Fin (sqrt a))"
| "Math_sqrt NaN = NaN"

fun Math_min :: "number \<Rightarrow> number \<Rightarrow> number" where
  "Math_min (Fin a) (Fin b) = Fin (min a b)"
| "Math_min _ _ = NaN"

fun Math_max :: "number \<Rightarrow> number \<Rightarrow> number" where
  "Math_max (Fin a) (Fin b) = Fin (max a b)"
| "Math_max _ _ = NaN"

text \<open>A vector is an array of three numbers.\<close>

type_synonym vec3 = "number \<times> number \<times> number"

text \<open>
  A property of an object holds a number or a three-element array; an absent property
  reads as \<^verbatim>\<open>undefined\<close>, modelled by \<open>None\<close>. Objects are maps from property
  names to values.
\<close>

datatype val = NumV number | VecV vec3

type_synonym obj = "string \<rightharpoonup> val"

text \<open>
  Reading a property where the source does arithmetic on it: \<^verbatim>\<open>undefined\<close> converts to
  \<^verbatim>\<open>NaN\<close>, and so does a three-element array.
\<close>

fun toNumber :: "val option \<Rightarrow> number" where
  "toNumber None = NaN"
| "toNumber (Some (NumV n)) = n"
| "toNumber (Some (VecV v)) = NaN"

section \<open>Vector utilities\<close>

fun add :: "vec3 \<Rightarrow> vec3 \<Rightarrow> vec3" where
  "add (a0, a1, a2) (b0, b1, b2) = (a0 + b0, a1 + b1, a2 + b2)"

fun sub_vec :: "vec3 \<Rightarrow> vec3 \<Rightarrow> vec3" where
  "sub_vec (a0, a1, a2) (b0, b1, b2) = (a0 - b0, a1 - b1, a2 - b2)"

fun mulScalar :: "vec3 \<Rightarrow> number \<Rightarrow> vec3" where
  "mulScalar (v0, v1, v2) s = (v0 * s, v1 * s, v2 * s)"

fun length_vec :: "vec3 \<Rightarrow> number" where
  "length_vec (v0, v1, v2) = Math_sqrt (v0 * v0 + v1 * v1 + v2 * v2)"

definition clampLength :: "vec3 \<Rightarrow> number \<Rightarrow> number \<Rightarrow> vec3" where
  "clampLength v minLen maxLen =
     (let len = length_vec v in
      if len = Fin 0 then v
      else let clamped = Math_min (Math_max len minLen) maxLen;
               scale = clamped / len
           in mulScalar v scale)"

definition normalizeSafe :: "vec3 \<Rightarrow> vec3" where
  "normalizeSafe v =
     (let len = length_vec v in
      if len = Fin 0 then (Fin 0, Fin 0, Fin 0)
      else (fst v / len, fst (snd v) / len, snd (snd v) / len))"

fun mixVec :: "vec3 \<Rightarrow> vec3 \<Rightarrow> number \<Rightarrow> vec3" where
  "mixVec (a0, a1, a2) (b0, b1, b2) t =
     (let s = Fin 1 - t in (a0 * s + b0 * t, a1 * s + b1 * t, a2 * s + b2 * t))"

definition clamp01 :: "number \<Rightarrow> number" where
  "clamp01 x = Math_min (Fin 1) (Math_max (Fin 0) x)"

section \<open>The weather state and the parameter mapping\<close>

definition createDefaultWeatherState :: obj where
  "createDefaultWeatherState = map_of
     [(''deformFactor'', NumV (Fin 0.0)),
      (''shapeStrength'', NumV (Fin 1.0)),
      (''flowDirection'', VecV (Fin 0, Fin 0, Fin 0)),
      (''flowSpeed'', NumV (Fin 0.0)),
      (''turbulence'', NumV (Fin 0.0)),
      (''noiseScaleLarge'', NumV (Fin 1.0)),
      (''noiseScaleSmall'', NumV (Fin 1.0)),
      (''verticalBias'', NumV (Fin 0.0)),
      (''clusterStrength'', NumV (Fin 0.0)),
      (''spawnRate'', NumV (Fin 0.0)),
      (''lifeSpan'', NumV (Fin 1.0)),
      (''sizeMin'', NumV (Fin 1.0)),
      (''sizeMax'', NumV (Fin 1.0)),
      (''brightness'', NumV (Fin 1.0)),
      (''contrast'', NumV (Fin 1.0)),
      (''colorTemperature'', NumV (Fin 0.5)),
      (''softness'', NumV (Fin 0.5)),
      (''trailLength'', NumV (Fin 0.3))]"

text \<open>
  A rule of the mapping config, \<^verbatim>\<open>{ from, min, max }\<close>. The config is the list of its
  entries in the order \<^verbatim>\<open>for (const key in mappingConfig)\<close> visits them; the
  normalized inputs are a map from input names to numbers, \<open>None\<close> for an input that is
  \<^verbatim>\<open>undefined\<close>.
\<close>

record rule =
  cfg_from :: string
  cfg_min :: number
  cfg_max :: number

type_synonym inputs = "string \<rightharpoonup> number"

type_synonym config = "(string \<times> rule) list"

text \<open>One iteration of the loop of \<^verbatim>\<open>applyMapping\<close>, on the copy \<open>ws\<close>.\<close>

definition mapping_step :: "inputs \<Rightarrow> obj \<Rightarrow> string \<times> rule \<Rightarrow> obj" where
  "mapping_step normalizedInputs ws entry =
     (let key = fst entry; cfg = snd entry in
      case normalizedInputs (cfg_from cfg) of
        None \<Rightarrow> ws
      | Some t \<Rightarrow>
          let clampedT = clamp01 t;
              v = cfg_min cfg + (cfg_max cfg - cfg_min cfg) * clampedT
          in ws(key \<mapsto> NumV v))"

definition applyMapping :: "inputs \<Rightarrow> config \<Rightarrow> obj option \<Rightarrow> obj" where
  "applyMapping normalizedInputs mappingConfig baseState =
     foldl (mapping_step normalizedInputs)
       (case baseState of None \<Rightarrow> createDefaultWeatherState | Some b \<Rightarrow> b)
       mappingConfig"

section \<open>The particle update\<close>

text \<open>
  A particle has an optional position, an optional velocity and an optional life; the
  extension part of the record holds the scene's own tags.
\<close>

record particle =
  position :: "vec3 option"
  velocity :: "vec3 option"
  life :: "number option"

text \<open>\<^verbatim>\<open>time || 0\<close>: an absent time, \<^verbatim>\<open>NaN\<close> and \<^verbatim>\<open>0\<close> are falsy.\<close>

fun time_or_zero :: "number option \<Rightarrow> number" where
  "time_or_zero None = Fin 0"
| "time_or_zero (Some NaN) = Fin 0"
| "time_or_zero (Some (Fin a)) = (if a = 0 then Fin 0 else Fin a)"

text \<open>
  \<^verbatim>\<open>weatherState.flowDirection || [0, 0, 0]\<close>, as \<^verbatim>\<open>normalizeSafe\<close> reads it: an
  absent property and the falsy numbers give the zero vector; the components of any
  other number are \<^verbatim>\<open>undefined\<close> and count as \<^verbatim>\<open>NaN\<close>.
\<close>

fun flowDirection_or_zero :: "val option \<Rightarrow> vec3" where
  "flowDirection_or_zero None = (Fin 0, Fin 0, Fin 0)"
| "flowDirection_or_zero (Some (VecV v)) = v"
| "flowDirection_or_zero (Some (NumV NaN)) = (Fin 0, Fin 0, Fin 0)"
| "flowDirection_or_zero (Some (NumV (Fin a))) =
     (if a = 0 then (Fin 0, Fin 0, Fin 0) else (NaN, NaN, NaN))"

definition wShape :: "obj \<Rightarrow> number" where
  "wShape weatherState =
     toNumber (weatherState ''shapeStrength'')
       * (Fin 1.0 - clamp01 (toNumber (weatherState ''deformFactor'')))"

definition v_shape :: "vec3 \<Rightarrow> obj \<Rightarrow> (vec3 \<Rightarrow> vec3) option \<Rightarrow> vec3" where
  "v_shape pos weatherState projectToShape =
     (let shapePos = (case projectToShape of None \<Rightarrow> pos | Some f \<Rightarrow> f pos);
          dirShape = sub_vec shapePos pos;
          dirShapeNorm = normalizeSafe dirShape
      in mulScalar dirShapeNorm (wShape weatherState))"

definition v_large :: "vec3 \<Rightarrow> obj \<Rightarrow> (vec3 \<Rightarrow> number \<Rightarrow> vec3) option \<Rightarrow> number \<Rightarrow> vec3" where
  "v_large pos weatherState noiseFn t =
     (let posLarge = mulScalar pos (toNumber (weatherState ''noiseScaleLarge''));
          nLarge = (case noiseFn of None \<Rightarrow> (Fin 0, Fin 0, Fin 0) | Some f \<Rightarrow> f posLarge t)
      in mulScalar (normalizeSafe nLarge) (toNumber (weatherState ''turbulence'')))"

definition v_small :: "vec3 \<Rightarrow> obj \<Rightarrow> (vec3 \<Rightarrow> number \<Rightarrow> vec3) option \<Rightarrow> number \<Rightarrow> vec3" where
  "v_small pos weatherState noiseFn t =
     (let posSmall = mulScalar pos (toNumber (weatherState ''noiseScaleSmall''));
          nSmall = (case noiseFn of None \<Rightarrow> (Fin 0, Fin 0, Fin 0)
                    | Some f \<Rightarrow> f posSmall (t + Fin 100.0))
      in mulScalar (normalizeSafe nSmall) (toNumber (weatherState ''turbulence'') * Fin 0.5))"

definition v_direction :: "obj \<Rightarrow> vec3" where
  "v_direction weatherState =
     (let dir = normalizeSafe (flowDirection_or_zero (weatherState ''flowDirection''))
      in mulScalar dir (toNumber (weatherState ''flowSpeed'')))"

definition v_vertical :: "obj \<Rightarrow> vec3" where
  "v_vertical weatherState = (Fin 0, - toNumber (weatherState ''verticalBias''), Fin 0)"

text \<open>The sum of the five contributions, before smoothing.\<close>

definition v_sum ::
  "vec3 \<Rightarrow> obj \<Rightarrow> (vec3 \<Rightarrow> vec3) option \<Rightarrow> (vec3 \<Rightarrow> number \<Rightarrow> vec3) option \<Rightarrow> number \<Rightarrow> vec3" where
  "v_sum pos weatherState projectToShape noiseFn t =
     add (v_shape pos weatherState projectToShape)
       (add (v_large pos weatherState noiseFn t)
         (add (v_small pos weatherState noiseFn t)
           (add (v_direction weatherState) (v_vertical weatherState))))"

text \<open>
  The defensive initialisation at the head of \<^verbatim>\<open>updateParticle\<close>: an absent
  position or velocity becomes the zero vector, an absent life becomes 1.
\<close>

definition position_of :: "'a particle_scheme \<Rightarrow> vec3" where
  "position_of p = (case position p of None \<Rightarrow> (Fin 0, Fin 0, Fin 0) | Some q \<Rightarrow> q)"

definition velocity_of :: "'a particle_scheme \<Rightarrow> vec3" where
  "velocity_of p = (case velocity p of None \<Rightarrow> (Fin 0, Fin 0, Fin 0) | Some u \<Rightarrow> u)"

definition life_of :: "'a particle_scheme \<Rightarrow> number" where
  "life_of p = (case life p of None \<Rightarrow> Fin 1.0 | Some l \<Rightarrow> l)"

text \<open>
  \<^verbatim>\<open>updateParticle\<close> mutates the particle \<open>p\<close> in place; the model returns the
  particle after the call. The projector and the noise field are optional arguments.
\<close>

definition updateParticle ::
  "'a particle_scheme \<Rightarrow> number \<Rightarrow> obj \<Rightarrow> (vec3 \<Rightarrow> vec3) option
     \<Rightarrow> (vec3 \<Rightarrow> number \<Rightarrow> vec3) option \<Rightarrow> number option \<Rightarrow> 'a particle_scheme" where
  "updateParticle p dt weatherState projectToShape noiseFn time =
     (let pos = position_of p;
          vel = velocity_of p;
          lf = life_of p;
          t = time_or_zero time;
          v = v_sum pos weatherState projectToShape noiseFn t;
          v = mixVec vel v (Fin 0.2);
          maxSpeed = Fin 5.0;
          v = clampLength v (Fin 0.0) maxSpeed
      in p\<lparr>position := Some (add pos (mulScalar v dt)),
           velocity := Some v,
           life := Some (lf - dt / Math_max (toNumber (weatherState ''lifeSpan'')) (Fin 0.0001))\<rparr>)"

section \<open>The engine on a store of objects\<close>

text \<open>
  Weather states and particles are objects that the scenes hold by reference. To speak
  about what a call leaves untouched, the objects live in a store: a reference is an
  index into the list of objects of its kind, allocation appends a fresh object.
\<close>

definition alloc :: "'o list \<Rightarrow> 'o \<Rightarrow> 'o list \<times> nat" where
  "alloc h ob = (h @ [ob], length h)"

definition createDefaultWeatherState_st :: "obj list \<Rightarrow> obj list \<times> nat" where
  "createDefaultWeatherState_st h = alloc h createDefaultWeatherState"

text \<open>The assignment \<^verbatim>\<open>ws[key] = v\<close> (or the \<^verbatim>\<open>continue\<close>) on the object at \<open>ws\<close>.\<close>

definition mapping_step_st :: "inputs \<Rightarrow> nat \<Rightarrow> obj list \<Rightarrow> string \<times> rule \<Rightarrow> obj list" where
  "mapping_step_st normalizedInputs ws h entry =
     h[ws := mapping_step normalizedInputs (h ! ws) entry]"

text \<open>
  \<^verbatim>\<open>applyMapping\<close> on the store: \<open>baseState\<close> is a reference or absent; the spread
  \<^verbatim>\<open>{ ...(baseState || createDefaultWeatherState()) }\<close> allocates a shallow copy, the
  loop writes to the copy, and the reference to the copy is returned.
\<close>

definition applyMapping_st :: "obj list \<Rightarrow> inputs \<Rightarrow> config \<Rightarrow> nat option \<Rightarrow> obj list \<times> nat" where
  "applyMapping_st h normalizedInputs mappingConfig baseState =
     (let (h1, b) = (case baseState of None \<Rightarrow> createDefaultWeatherState_st h
                     | Some r \<Rightarrow> (h, r));
          (h2, ws) = alloc h1 (h1 ! b)
      in (foldl (mapping_step_st normalizedInputs ws) h2 mappingConfig, ws))"

record 'a store =
  particles :: "'a particle_scheme list"
  weathers :: "obj list"

text \<open>
  \<^verbatim>\<open>updateParticle\<close> on the store: \<open>p\<close> and \<open>weatherState\<close> are references; the
  three assignments of the source go to the particle at \<open>p\<close>.
\<close>

definition updateParticle_st ::
  "'a store \<Rightarrow> nat \<Rightarrow> number \<Rightarrow> nat \<Rightarrow> (vec3 \<Rightarrow> vec3) option
     \<Rightarrow> (vec3 \<Rightarrow> number \<Rightarrow> vec3) option \<Rightarrow> number option \<Rightarrow> 'a store" where
  "updateParticle_st st p dt weatherState projectToShape noiseFn time =
     st\<lparr>particles := (particles st)
          [p := updateParticle (particles st ! p) dt (weathers st ! weatherState)
                  projectToShape noiseFn time]\<rparr>"

section \<open>Finite inputs\<close>

fun is_finite :: "number \<Rightarrow> bool" where
  "is_finite (Fin a) = True"
| "is_finite NaN = False"

fun finite_vec :: "vec3 \<Rightarrow> bool" where
  "finite_vec (v0, v1, v2) = (is_finite v0 \<and> is_finite v1 \<and> is_finite v2)"


text \<open>The properties of the weather state that \<^verbatim>\<open>updateParticle\<close> reads.\<close>

definition read_fields :: "string set" where
  "read_fields = {''shapeStrength'', ''deformFactor'', ''noiseScaleLarge'', ''noiseScaleSmall'',
     ''turbulence'', ''flowSpeed'', ''verticalBias'', ''lifeSpan'', ''flowDirection''}"

section \<open>The engine in double precision\<close>

text \<open>
  Two claims, the bound on the speed (C1) and the decay by the factor 0.8 (C6), depend on
  how JavaScript rounds. For them the engine is embedded a second time, over IEEE 754
  binary64 numbers: a finite double is the real number it denotes, every operation
  computes the exact result and rounds it to the nearest double, ties to the even
  significand, and a result of magnitude \<open>2\<^sup>1\<^sup>0\<^sup>2\<^sup>4\<close> or more becomes an infinity. The sign of
  zero is not modelled: \<^verbatim>\<open>-0 === 0\<close> holds, and the engine never divides by a zero, so
  no result depends on it. The definitions carry the names of the first embedding with
  the suffix \<open>64\<close>; a literal of the source is the double nearest to it.
\<close>

text \<open>Rounding a real to the nearest integer, a tie going to the even one.\<close>

definition round_half_even :: "real \<Rightarrow> int" where
  "round_half_even y =
     (let f = \<lfloor>y\<rfloor>; r = y - of_int f
      in if r < 1 / 2 then f else if 1 / 2 < r then f + 1 else if even f then f else f + 1)"

text \<open>
  The exponent of the unit in the last place of the doubles around \<open>x\<close>: 53 significant
  bits in the normal range, the fixed exponent \<open>-1074\<close> in the subnormal range.
\<close>

definition ulp_exponent :: "real \<Rightarrow> int" where
  "ulp_exponent x = max (\<lfloor>log 2 \<bar>x\<bar>\<rfloor> - 52) (- 1074)"

text \<open>The double nearest to a real, before the test for overflow.\<close>

definition round_real :: "real \<Rightarrow> real" where
  "round_real x =
     (if x = 0 then 0
      else of_int (round_half_even (x / 2 powi ulp_exponent x)) * 2 powi ulp_exponent x)"

text \<open>A JavaScript number: a finite double, an infinity or \<^verbatim>\<open>NaN\<close>.\<close>

datatype double = Dbl real | PInf | NInf | DNaN

text \<open>Rounding with overflow: the result of every arithmetic operation on finite doubles.\<close>

definition fl :: "real \<Rightarrow> double" where
  "fl x =
     (let r = round_real x
      in if 2 ^ 1024 \<le> r then PInf else if r \<le> - (2 ^ 1024) then NInf else Dbl r)"

text \<open>
  Arithmetic. On finite doubles the exact result is rounded; the other rows are the IEEE
  rules for infinities and \<^verbatim>\<open>NaN\<close>. A quotient by zero is an infinity (of the sign of the
  dividend, zero being taken as positive) or \<^verbatim>\<open>NaN\<close>; the engine guards both of its
  divisions, so this row is never used.
\<close>

instantiation double :: "{plus, minus, times, uminus, inverse}"
begin

fun uminus_double :: "double \<Rightarrow> double" where
  "- Dbl a = Dbl (- a)"
| "- PInf = NInf"
| "- NInf = PInf"
| "- DNaN = DNaN"

fun plus_double :: "double \<Rightarrow> double \<Rightarrow> double" where
  "Dbl a + Dbl b = fl (a + b)"
| "DNaN + _ = DNaN"
| "_ + DNaN = DNaN"
| "PInf + NInf = DNaN"
| "NInf + PInf = DNaN"
| "PInf + _ = PInf"
| "_ + PInf = PInf"
| "NInf + _ = NInf"
| "_ + NInf = NInf"

fun minus_double :: "double \<Rightarrow> double \<Rightarrow> double" where
  "Dbl a - Dbl b = fl (a - b)"
| "DNaN - _ = DNaN"
| "_ - DNaN = DNaN"
| "PInf - PInf = DNaN"
| "NInf - NInf = DNaN"
| "PInf - _ = PInf"
| "_ - NInf = PInf"
| "NInf - _ = NInf"
| "_ - PInf = NInf"

fun times_double :: "double \<Rightarrow> double \<Rightarrow> double" where
  "Dbl a * Dbl b = fl (a * b)"
| "DNaN * _ = DNaN"
| "_ * DNaN = DNaN"
| "PInf * Dbl b = (if b = 0 then DNaN else if 0 < b then PInf else NInf)"
| "NInf * Dbl b = (if b = 0 then DNaN else if 0 < b then NInf else PInf)"
| "Dbl a * PInf = (if a = 0 then DNaN else if 0 < a then PInf else NInf)"
| "Dbl a * NInf = (if a = 0 then DNaN else if 0 < a then NInf else PInf)"
| "PInf * PInf = PInf"
| "PInf * NInf = NInf"
| "NInf * PInf = NInf"
| "NInf * NInf = PInf"

fun divide_double :: "double \<Rightarrow> double \<Rightarrow> double" where
  "divide_double (Dbl a) (Dbl b) =
     (if b = 0 then (if a = 0 then DNaN else if 0 < a then PInf else NInf) else fl (a / b))"
| "divide_double DNaN _ = DNaN"
| "divide_double _ DNaN = DNaN"
| "divide_double (Dbl a) PInf = Dbl 0"
| "divide_double (Dbl a) NInf = Dbl 0"
| "divide_double PInf (Dbl b) = (if 0 \<le> b then PInf else NInf)"
| "divide_double NInf (Dbl b) = (if 0 \<le> b then NInf else PInf)"
| "divide_double _ _ = DNaN"

definition inverse_double :: "double \<Rightarrow> double" where
  "inverse_double x =
     (case x of Dbl b \<Rightarrow> (if b = 0 then PInf else fl (1 / b))
      | PInf \<Rightarrow> Dbl 0 | NInf \<Rightarrow> Dbl 0 | DNaN \<Rightarrow> DNaN)"

instance ..

end

text \<open>\<^verbatim>\<open>Math.sqrt\<close> is correctly rounded; \<^verbatim>\<open>Math.min\<close> and \<^verbatim>\<open>Math.max\<close> are exact.\<close>

fun Math_sqrt64 :: "double \<Rightarrow> double" where
  "Math_sqrt64 (Dbl a) = (if a < 0 then DNaN else fl (sqrt a))"
| "Math_sqrt64 PInf = PInf"
| "Math_sqrt64 NInf = DNaN"
| "Math_sqrt64 DNaN = DNaN"

fun Math_min64 :: "double \<Rightarrow> double \<Rightarrow> double" where
  "Math_min64 (Dbl a) (Dbl b) = Dbl (min a b)"
| "Math_min64 DNaN _ = DNaN"
| "Math_min64 _ DNaN = DNaN"
| "Math_min64 NInf _ = NInf"
| "Math_min64 _ NInf = NInf"
| "Math_min64 PInf y = y"
| "Math_min64 x PInf = x"

fun Math_max64 :: "double \<Rightarrow> double \<Rightarrow> double" where
  "Math_max64 (Dbl a) (Dbl b) = Dbl (max a b)"
| "Math_max64 DNaN _ = DNaN"
| "Math_max64 _ DNaN = DNaN"
| "Math_max64 PInf _ = PInf"
| "Math_max64 _ PInf = PInf"
| "Math_max64 NInf y = y"
| "Math_max64 x NInf = x"

type_synonym vec64 = "double \<times> double \<times> double"

datatype val64 = NumV64 double | VecV64 vec64

type_synonym obj64 = "string \<rightharpoonup> val64"

fun toNumber64 :: "val64 option \<Rightarrow> double" where
  "toNumber64 None = DNaN"
| "toNumber64 (Some (NumV64 n)) = n"
| "toNumber64 (Some (VecV64 v)) = DNaN"

text \<open>The vector utilities, the weather state and the particle update, as in the first embedding.\<close>

fun add64 :: "vec64 \<Rightarrow> vec64 \<Rightarrow> vec64" where
  "add64 (a0, a1, a2) (b0, b1, b2) = (a0 + b0, a1 + b1, a2 + b2)"

fun sub64 :: "vec64 \<Rightarrow> vec64 \<Rightarrow> vec64" where
  "sub64 (a0, a1, a2) (b0, b1, b2) = (a0 - b0, a1 - b1, a2 - b2)"

fun mulScalar64 :: "vec64 \<Rightarrow> double \<Rightarrow> vec64" where
  "mulScalar64 (v0, v1, v2) s = (v0 * s, v1 * s, v2 * s)"

fun length64 :: "vec64 \<Rightarrow> double" where
  "length64 (v0, v1, v2) = Math_sqrt64 (v0 * v0 + v1 * v1 + v2 * v2)"

definition clampLength64 :: "vec64 \<Rightarrow> double \<Rightarrow> double \<Rightarrow> vec64" where
  "clampLength64 v minLen maxLen =
     (let len = length64 v in
      if len = Dbl 0 then v
      else let clamped = Math_min64 (Math_max64 len minLen) maxLen;
               scale = clamped / len
           in mulScalar64 v scale)"

definition normalizeSafe64 :: "vec64 \<Rightarrow> vec64" where
  "normalizeSafe64 v =
     (let len = length64 v in
      if len = Dbl 0 then (Dbl 0, Dbl 0, Dbl 0)
      else (fst v / len, fst (snd v) / len, snd (snd v) / len))"

fun mixVec64 :: "vec64 \<Rightarrow> vec64 \<Rightarrow> double \<Rightarrow> vec64" where
  "mixVec64 (a0, a1, a2) (b0, b1, b2) t =
     (let s = Dbl 1 - t in (a0 * s + b0 * t, a1 * s + b1 * t, a2 * s + b2 * t))"

definition clamp01_64 :: "double \<Rightarrow> double" where
  "clamp01_64 x = Math_min64 (Dbl 1) (Math_max64 (Dbl 0) x)"

definition createDefaultWeatherState64 :: obj64 where
  "createDefaultWeatherState64 = map_of
     [(''deformFactor'', NumV64 (Dbl 0)),
      (''shapeStrength'', NumV64 (Dbl 1)),
      (''flowDirection'', VecV64 (Dbl 0, Dbl 0, Dbl 0)),
      (''flowSpeed'', NumV64 (Dbl 0)),
      (''turbulence'', NumV64 (Dbl 0)),
      (''noiseScaleLarge'', NumV64 (Dbl 1)),
      (''noiseScaleSmall'', NumV64 (Dbl 1)),
      (''verticalBias'', NumV64 (Dbl 0)),
      (''clusterStrength'', NumV64 (Dbl 0)),
      (''spawnRate'', NumV64 (Dbl 0)),
      (''lifeSpan'', NumV64 (Dbl 1)),
      (''sizeMin'', NumV64 (Dbl 1)),
      (''sizeMax'', NumV64 (Dbl 1)),
      (''brightness'', NumV64 (Dbl 1)),
      (''contrast'', NumV64 (Dbl 1)),
      (''colorTemperature'', NumV64 (Dbl 0.5)),
      (''softness'', NumV64 (Dbl 0.5)),
      (''trailLength'', NumV64 (fl 0.3))]"

record particle64 =
  position64 :: "vec64 option"
  velocity64 :: "vec64 option"
  life64 :: "double option"

fun time_or_zero64 :: "double option \<Rightarrow> double" where
  "time_or_zero64 None = Dbl 0"
| "time_or_zero64 (Some DNaN) = Dbl 0"
| "time_or_zero64 (Some (Dbl a)) = (if a = 0 then Dbl 0 else Dbl a)"
| "time_or_zero64 (Some x) = x"

fun flowDirection_or_zero64 :: "val64 option \<Rightarrow> vec64" where
  "flowDirection_or_zero64 None = (Dbl 0, Dbl 0, Dbl 0)"
| "flowDirection_or_zero64 (Some (VecV64 v)) = v"
| "flowDirection_or_zero64 (Some (NumV64 DNaN)) = (Dbl 0, Dbl 0, Dbl 0)"
| "flowDirection_or_zero64 (Some (NumV64 (Dbl a))) =
     (if a = 0 then (Dbl 0, Dbl 0, Dbl 0) else (DNaN, DNaN, DNaN))"
| "flowDirection_or_zero64 (Some (NumV64 x)) = (DNaN, DNaN, DNaN)"

definition wShape64 :: "obj64 \<Rightarrow> double" where
  "wShape64 weatherState =
     toNumber64 (weatherState ''shapeStrength'')
       * (Dbl 1 - clamp01_64 (toNumber64 (weatherState ''deformFactor'')))"

definition v_shape64 :: "vec64 \<Rightarrow> obj64 \<Rightarrow> (vec64 \<Rightarrow> vec64) option \<Rightarrow> vec64" where
  "v_shape64 pos weatherState projectToShape =
     (let shapePos = (case projectToShape of None \<Rightarrow> pos | Some f \<Rightarrow> f pos);
          dirShape = sub64 shapePos pos;
          dirShapeNorm = normalizeSafe64 dirShape
      in mulScalar64 dirShapeNorm (wShape64 weatherState))"

definition v_large64 ::
  "vec64 \<Rightarrow> obj64 \<Rightarrow> (vec64 \<Rightarrow> double \<Rightarrow> vec64) option \<Rightarrow> double \<Rightarrow> vec64" where
  "v_large64 pos weatherState noiseFn t =
     (let posLarge = mulScalar64 pos (toNumber64 (weatherState ''noiseScaleLarge''));
          nLarge = (case noiseFn of None \<Rightarrow> (Dbl 0, Dbl 0, Dbl 0) | Some f \<Rightarrow> f posLarge t)
      in mulScalar64 (normalizeSafe64 nLarge) (toNumber64 (weatherState ''turbulence'')))"

definition v_small64 ::
  "vec64 \<Rightarrow> obj64 \<Rightarrow> (vec64 \<Rightarrow> double \<Rightarrow> vec64) option \<Rightarrow> double \<Rightarrow> vec64" where
  "v_small64 pos weatherState noiseFn t =
     (let posSmall = mulScalar64 pos (toNumber64 (weatherState ''noiseScaleSmall''));
          nSmall = (case noiseFn of None \<Rightarrow> (Dbl 0, Dbl 0, Dbl 0)
                    | Some f \<Rightarrow> f posSmall (t + Dbl 100))
      in mulScalar64 (normalizeSafe64 nSmall)
           (toNumber64 (weatherState ''turbulence'') * Dbl 0.5))"

definition v_direction64 :: "obj64 \<Rightarrow> vec64" where
  "v_direction64 weatherState =
     (let dir = normalizeSafe64 (flowDirection_or_zero64 (weatherState ''flowDirection''))
      in mulScalar64 dir (toNumber64 (weatherState ''flowSpeed'')))"

definition v_vertical64 :: "obj64 \<Rightarrow> vec64" where
  "v_vertical64 weatherState = (Dbl 0, - toNumber64 (weatherState ''verticalBias''), Dbl 0)"

definition v_sum64 ::
  "vec64 \<Rightarrow> obj64 \<Rightarrow> (vec64 \<Rightarrow> vec64) option \<Rightarrow> (vec64 \<Rightarrow> double \<Rightarrow> vec64) option
     \<Rightarrow> double \<Rightarrow> vec64" where
  "v_sum64 pos weatherState projectToShape noiseFn t =
     add64 (v_shape64 pos weatherState projectToShape)
       (add64 (v_large64 pos weatherState noiseFn t)
         (add64 (v_small64 pos weatherState noiseFn t)
           (add64 (v_direction64 weatherState) (v_vertical64 weatherState))))"

definition position_of64 :: "'a particle64_scheme \<Rightarrow> vec64" where
  "position_of64 p = (case position64 p of None \<Rightarrow> (Dbl 0, Dbl 0, Dbl 0) | Some q \<Rightarrow> q)"

definition velocity_of64 :: "'a particle64_scheme \<Rightarrow> vec64" where
  "velocity_of64 p = (case velocity64 p of None \<Rightarrow> (Dbl 0, Dbl 0, Dbl 0) | Some u \<Rightarrow> u)"

definition life_of64 :: "'a particle64_scheme \<Rightarrow> double" where
  "life_of64 p = (case life64 p of None \<Rightarrow> Dbl 1 | Some l \<Rightarrow> l)"

text \<open>The smoothing factor \<^verbatim>\<open>0.2\<close> is the double nearest to 0.2.\<close>

definition smoothingFactor64 :: double where
  "smoothingFactor64 = fl 0.2"

definition updateParticle64 ::
  "'a particle64_scheme \<Rightarrow> double \<Rightarrow> obj64 \<Rightarrow> (vec64 \<Rightarrow> vec64) option
     \<Rightarrow> (vec64 \<Rightarrow> double \<Rightarrow> vec64) option \<Rightarrow> double option \<Rightarrow> 'a particle64_scheme" where
  "updateParticle64 p dt weatherState projectToShape noiseFn time =
     (let pos = position_of64 p;
          vel = velocity_of64 p;
          lf = life_of64 p;
          t = time_or_zero64 time;
          v = v_sum64 pos weatherState projectToShape noiseFn t;
          v = mixVec64 vel v smoothingFactor64;
          maxSpeed = Dbl 5;
          v = clampLength64 v (Dbl 0) maxSpeed
      in p\<lparr>position64 := Some (add64 pos (mulScalar64 v dt)),
           velocity64 := Some v,
           life64 := Some (lf - dt / Math_max64 (toNumber64 (weatherState ''lifeSpan''))
                       (fl 0.0001))\<rparr>)"

section \<open>Rounding to the nearest double\<close>

section \<open>Finite numbers and vectors\<close>

lemma is_finite_iff: "is_finite x \<longleftrightarrow> (\<exists>a. x = Fin a)"
  by (cases x) simp_all

lemma finite_vec_iff: "finite_vec v \<longleftrightarrow> (\<exists>a b c. v = (Fin a, Fin b, Fin c))"
  by (cases v) (simp add: is_finite_iff)

lemma sum_squares_not_neg [simp]: "\<not> a * a + b * b + c * c < (0::real)"
  by (simp add: not_less)

lemma length_vec_Fin [simp]:
  "length_vec (Fin a, Fin b, Fin c) = Fin (sqrt (a * a + b * b + c * c))"
  by simp

declare length_vec.simps [simp del]

lemma length_vec_cases: "length_vec v = NaN \<or> (\<exists>r. 0 \<le> r \<and> length_vec v = Fin r)"
proof -
  obtain x y z where v: "v = (x, y, z)" by (cases v) auto
  show ?thesis unfolding v by (cases x; cases y; cases z) (simp_all add: length_vec.simps)
qed

text \<open>The two divisors of the source are never zero.\<close>

lemma length_vec_divisor:
  "length_vec v \<noteq> Fin 0 \<Longrightarrow> length_vec v = NaN \<or> (\<exists>r. 0 < r \<and> length_vec v = Fin r)"
  using length_vec_cases [of v] by (auto simp: less_le)

lemma Math_max_divisor: "Math_max x (Fin 0.0001) \<noteq> Fin 0"
  by (cases x) simp_all

lemma normalizeSafe_Fin:
  "normalizeSafe (Fin a, Fin b, Fin c) =
     (if sqrt (a * a + b * b + c * c) = 0 then (Fin 0, Fin 0, Fin 0)
      else (Fin (a / sqrt (a * a + b * b + c * c)), Fin (b / sqrt (a * a + b * b + c * c)),
            Fin (c / sqrt (a * a + b * b + c * c))))"
  by (simp add: normalizeSafe_def Let_def)

lemma finite_normalizeSafe: "finite_vec v \<Longrightarrow> finite_vec (normalizeSafe v)"
  by (auto simp: finite_vec_iff normalizeSafe_Fin)

lemma clampLength_Fin:
  "clampLength (Fin a, Fin b, Fin c) (Fin 0) (Fin m) =
     (if sqrt (a * a + b * b + c * c) = 0 then (Fin a, Fin b, Fin c)
      else (Fin (a * (min (max (sqrt (a * a + b * b + c * c)) 0) m / sqrt (a * a + b * b + c * c))),
            Fin (b * (min (max (sqrt (a * a + b * b + c * c)) 0) m / sqrt (a * a + b * b + c * c))),
            Fin (c * (min (max (sqrt (a * a + b * b + c * c)) 0) m / sqrt (a * a + b * b + c * c)))))"
  by (simp add: clampLength_def Let_def)

lemma is_finite_arith [simp]:
  "is_finite x \<Longrightarrow> is_finite y \<Longrightarrow> is_finite (x + y)"
  "is_finite x \<Longrightarrow> is_finite y \<Longrightarrow> is_finite (x - y)"
  "is_finite x \<Longrightarrow> is_finite y \<Longrightarrow> is_finite (x * y)"
  "is_finite x \<Longrightarrow> is_finite (- x)"
  "is_finite x \<Longrightarrow> is_finite y \<Longrightarrow> is_finite (Math_min x y)"
  "is_finite x \<Longrightarrow> is_finite y \<Longrightarrow> is_finite (Math_max x y)"
  by (auto simp: is_finite_iff)

lemma finite_sub_vec [simp]: "finite_vec u \<Longrightarrow> finite_vec v \<Longrightarrow> finite_vec (sub_vec u v)"
  by (cases u; cases v) simp


lemma velocity_updateParticle:
  "velocity (updateParticle p dt ws pr nf time) =
     Some (clampLength (mixVec (velocity_of p)
        (v_sum (position_of p) ws pr nf (time_or_zero time)) (Fin 0.2)) (Fin 0) (Fin 5))"
  by (simp add: updateParticle_def Let_def)

lemma position_updateParticle:
  "position (updateParticle p dt ws pr nf time) =
     Some (add (position_of p) (mulScalar (the (velocity (updateParticle p dt ws pr nf time))) dt))"
  by (simp add: updateParticle_def Let_def)

lemma life_updateParticle:
  "life (updateParticle p dt ws pr nf time) =
     Some (life_of p - dt / Math_max (toNumber (ws ''lifeSpan'')) (Fin 0.0001))"
  by (simp add: updateParticle_def Let_def)

section \<open>Normalising the zero vector\<close>

text \<open>
  Claim C9. \<^verbatim>\<open>normalizeSafe\<close> of a vector of length zero, in particular of
  \<^verbatim>\<open>[0, 0, 0]\<close>, is the zero vector, with no \<^verbatim>\<open>NaN\<close> component; on a finite vector
  the result is always finite, so the branch that divides by the length is only taken
  with a nonzero length.
\<close>

theorem normalizeSafe_zero_length:
  "normalizeSafe (Fin 0, Fin 0, Fin 0) = (Fin 0, Fin 0, Fin 0)
   \<and> (length_vec v = Fin 0 \<longrightarrow> normalizeSafe v = (Fin 0, Fin 0, Fin 0))
   \<and> (finite_vec v \<longrightarrow> finite_vec (normalizeSafe v))"
proof -
  have "length_vec v = Fin 0 \<longrightarrow> normalizeSafe v = (Fin 0, Fin 0, Fin 0)"
    by (simp add: normalizeSafe_def Let_def)
  moreover have "normalizeSafe (Fin 0, Fin 0, Fin 0) = (Fin 0, Fin 0, Fin 0)"
    by (simp add: normalizeSafe_def Let_def)
  ultimately show ?thesis using finite_normalizeSafe [of v] by blast
qed

theorem normalizeSafe_zero_length_witness:
  "length_vec (Fin 0, Fin 0, Fin 0) = Fin 0 \<and> finite_vec (Fin 0, Fin 0, Fin 0)
   \<and> normalizeSafe (Fin 0, Fin 0, Fin 0) = (Fin 0, Fin 0, Fin 0)
   \<and> finite_vec (normalizeSafe (Fin 0, Fin 0, Fin 0))"
  using normalizeSafe_zero_length [of "(Fin 0, Fin 0, Fin 0)"] by simp

section \<open>Life decay\<close>



section \<open>The vertical bias scenario\<close>

text \<open>
  Claim C4. A particle at the origin with zero velocity, a weather state with
  \<open>verticalBias = 10\<close> whose shape, turbulence and flow contributions are zero, and
  \<open>dt = 0.1\<close>: one call gives the velocity \<open>[0, -2, 0]\<close>, which is the 0.2 smoothing of
  the target \<open>[0, -10, 0]\<close> and is left alone by the clamp, and the position
  \<open>[0, -0.2, 0]\<close>.
\<close>

theorem vertical_bias_scenario:
  assumes "position_of p = (Fin 0, Fin 0, Fin 0)" and "velocity_of p = (Fin 0, Fin 0, Fin 0)"
    and "toNumber (weatherState ''verticalBias'') = Fin 10"
    and "v_shape (position_of p) weatherState projectToShape = (Fin 0, Fin 0, Fin 0)"
    and "v_large (position_of p) weatherState noiseFn (time_or_zero time) = (Fin 0, Fin 0, Fin 0)"
    and "v_small (position_of p) weatherState noiseFn (time_or_zero time) = (Fin 0, Fin 0, Fin 0)"
    and "v_direction weatherState = (Fin 0, Fin 0, Fin 0)"
  shows "velocity (updateParticle p (Fin 0.1) weatherState projectToShape noiseFn time)
           = Some (Fin 0, Fin (- 2), Fin 0)
         \<and> position (updateParticle p (Fin 0.1) weatherState projectToShape noiseFn time)
           = Some (Fin 0, Fin (- 0.2), Fin 0)
         \<and> mixVec (Fin 0, Fin 0, Fin 0) (Fin 0, Fin (- 10), Fin 0) (Fin 0.2)
           = (Fin 0, Fin (- 2), Fin 0)"
proof -
  have s: "v_sum (position_of p) weatherState projectToShape noiseFn (time_or_zero time)
      = (Fin 0, Fin (- 10), Fin 0)"
    using assms by (simp add: v_sum_def v_vertical_def)
  have v: "velocity (updateParticle p (Fin 0.1) weatherState projectToShape noiseFn time)
      = Some (Fin 0, Fin (- 2), Fin 0)"
    using assms(2) by (simp add: velocity_updateParticle s clampLength_Fin)
  then show ?thesis using assms(1) by (simp add: position_updateParticle)
qed

theorem vertical_bias_scenario_witness:
  "position_of \<lparr>position = Some (Fin 0, Fin 0, Fin 0), velocity = Some (Fin 0, Fin 0, Fin 0),
      life = Some (Fin 1)\<rparr> = (Fin 0, Fin 0, Fin 0)
   \<and> toNumber ((createDefaultWeatherState(''verticalBias'' \<mapsto> NumV (Fin 10))) ''verticalBias'')
      = Fin 10
   \<and> v_direction (createDefaultWeatherState(''verticalBias'' \<mapsto> NumV (Fin 10)))
      = (Fin 0, Fin 0, Fin 0)
   \<and> velocity (updateParticle
        \<lparr>position = Some (Fin 0, Fin 0, Fin 0), velocity = Some (Fin 0, Fin 0, Fin 0),
           life = Some (Fin 1)\<rparr>
        (Fin 0.1) (createDefaultWeatherState(''verticalBias'' \<mapsto> NumV (Fin 10))) None None None)
      = Some (Fin 0, Fin (- 2), Fin 0)
   \<and> position (updateParticle
        \<lparr>position = Some (Fin 0, Fin 0, Fin 0), velocity = Some (Fin 0, Fin 0, Fin 0),
           life = Some (Fin 1)\<rparr>
        (Fin 0.1) (createDefaultWeatherState(''verticalBias'' \<mapsto> NumV (Fin 10))) None None None)
      = Some (Fin 0, Fin (- 0.2), Fin 0)"
proof -
  let ?p = "\<lparr>position = Some (Fin 0, Fin 0, Fin 0), velocity = Some (Fin 0, Fin 0, Fin 0),
      life = Some (Fin 1)\<rparr>"
  let ?ws = "createDefaultWeatherState(''verticalBias'' \<mapsto> NumV (Fin 10))"
  have h1: "position_of ?p = (Fin 0, Fin 0, Fin 0)" by (simp add: position_of_def)
  have h2: "velocity_of ?p = (Fin 0, Fin 0, Fin 0)" by (simp add: velocity_of_def)
  have h3: "toNumber (?ws ''verticalBias'') = Fin 10" by simp
  have h4: "v_shape (position_of ?p) ?ws None = (Fin 0, Fin 0, Fin 0)"
    by (simp add: h1 v_shape_def wShape_def normalizeSafe_def clamp01_def
        createDefaultWeatherState_def Let_def)
  have h5: "v_large (position_of ?p) ?ws None (time_or_zero None) = (Fin 0, Fin 0, Fin 0)"
    by (simp add: h1 v_large_def normalizeSafe_def createDefaultWeatherState_def Let_def)
  have h6: "v_small (position_of ?p) ?ws None (time_or_zero None) = (Fin 0, Fin 0, Fin 0)"
    by (simp add: h1 v_small_def normalizeSafe_def createDefaultWeatherState_def Let_def)
  have h7: "v_direction ?ws = (Fin 0, Fin 0, Fin 0)"
    by (simp add: v_direction_def normalizeSafe_def createDefaultWeatherState_def Let_def)
  from vertical_bias_scenario [where p = ?p and weatherState = ?ws and projectToShape = None
      and noiseFn = None and time = None, OF h1 h2 h3 h4 h5 h6 h7] h1 h3 h7
  show ?thesis by simp
qed

section \<open>The shape term\<close>





section \<open>Absent properties of the weather state\<close>

lemma updateParticle_unread:
  assumes "k \<notin> read_fields"
  shows "updateParticle p dt (weatherState(k := y)) projectToShape noiseFn time
         = updateParticle p dt weatherState projectToShape noiseFn time"
proof -
  from assms have k: "k \<noteq> ''shapeStrength''" "k \<noteq> ''deformFactor''" "k \<noteq> ''noiseScaleLarge''"
    "k \<noteq> ''noiseScaleSmall''" "k \<noteq> ''turbulence''" "k \<noteq> ''flowSpeed''" "k \<noteq> ''verticalBias''"
    "k \<noteq> ''lifeSpan''" "k \<noteq> ''flowDirection''"
    by (auto simp: read_fields_def)
  have "v_sum pos (weatherState(k := y)) projectToShape noiseFn t
      = v_sum pos weatherState projectToShape noiseFn t" for pos t
    using k by (simp add: v_sum_def v_shape_def wShape_def v_large_def v_small_def
        v_direction_def v_vertical_def)
  then show ?thesis using k by (simp add: updateParticle_def)
qed

lemma updateParticle_flowDirection_absent:
  "updateParticle p dt (weatherState(''flowDirection'' := None)) projectToShape noiseFn time
   = updateParticle p dt (weatherState(''flowDirection'' \<mapsto> VecV (Fin 0, Fin 0, Fin 0)))
       projectToShape noiseFn time"
proof -
  have "v_sum pos (weatherState(''flowDirection'' := None)) projectToShape noiseFn t
      = v_sum pos (weatherState(''flowDirection'' \<mapsto> VecV (Fin 0, Fin 0, Fin 0)))
          projectToShape noiseFn t" for pos t
    by (simp add: v_sum_def v_shape_def wShape_def v_large_def v_small_def
        v_direction_def v_vertical_def)
  then show ?thesis by (simp add: updateParticle_def)
qed

text \<open>
  Claim C2, as the spec states it, fails: a weather state without \<open>shapeStrength\<close>
  makes the weight of the shape term \<^verbatim>\<open>NaN\<close>, and the velocity after the call is
  \<^verbatim>\<open>NaN\<close> in every component, where the default \<open>shapeStrength = 1.0\<close> gives the zero
  velocity.
\<close>

theorem absent_shapeStrength_counterexample:
  "velocity (updateParticle \<lparr>position = None, velocity = None, life = None\<rparr> (Fin 0.1)
      (createDefaultWeatherState(''shapeStrength'' := None)) None None None)
     = Some (NaN, NaN, NaN)
   \<and> velocity (updateParticle \<lparr>position = None, velocity = None, life = None\<rparr> (Fin 0.1)
      createDefaultWeatherState None None None)
     = Some (Fin 0, Fin 0, Fin 0)"
  by (simp add: velocity_updateParticle position_of_def velocity_of_def v_sum_def v_shape_def
      wShape_def v_large_def v_small_def v_direction_def v_vertical_def normalizeSafe_def
      clampLength_def clamp01_def createDefaultWeatherState_def length_vec.simps Let_def)

text \<open>
  Claim C2, amended. The call never fails: it always leaves a particle with a position,
  a velocity and a life. An absent \<open>flowDirection\<close> behaves as its default
  \<open>[0, 0, 0]\<close>, and a property that \<^verbatim>\<open>updateParticle\<close> does not read (such as
  \<open>clusterStrength\<close>, \<open>spawnRate\<close> or the rendering hints) may be absent or hold any
  value, its default included, without changing the result.
\<close>

theorem absent_field_defaults:
  "updateParticle p dt (weatherState(''flowDirection'' := None)) projectToShape noiseFn time
     = updateParticle p dt (weatherState(''flowDirection'' \<mapsto> VecV (Fin 0, Fin 0, Fin 0)))
         projectToShape noiseFn time
   \<and> (k \<notin> read_fields \<longrightarrow>
        updateParticle p dt (weatherState(k := None)) projectToShape noiseFn time
        = updateParticle p dt (weatherState(k \<mapsto> x)) projectToShape noiseFn time)
   \<and> position (updateParticle p dt weatherState projectToShape noiseFn time) \<noteq> None
   \<and> velocity (updateParticle p dt weatherState projectToShape noiseFn time) \<noteq> None
   \<and> life (updateParticle p dt weatherState projectToShape noiseFn time) \<noteq> None"
  by (simp add: updateParticle_flowDirection_absent updateParticle_unread
      velocity_updateParticle position_updateParticle life_updateParticle)

theorem absent_field_defaults_witness:
  "''clusterStrength'' \<notin> read_fields
   \<and> updateParticle \<lparr>position = None, velocity = None, life = None\<rparr> (Fin 0.1)
        (createDefaultWeatherState(''clusterStrength'' := None)) None None None
      = updateParticle \<lparr>position = None, velocity = None, life = None\<rparr> (Fin 0.1)
        (createDefaultWeatherState(''clusterStrength'' \<mapsto> NumV (Fin 0.0))) None None None"
proof -
  have h: "''clusterStrength'' \<notin> read_fields" by (simp add: read_fields_def)
  from absent_field_defaults [where k = "''clusterStrength''"
      and weatherState = createDefaultWeatherState and x = "NumV (Fin 0.0)"
      and p = "\<lparr>position = None, velocity = None, life = None\<rparr>" and dt = "Fin 0.1"
      and projectToShape = None and noiseFn = None and time = None] h
  show ?thesis by blast
qed

section \<open>The parameter mapping\<close>







section \<open>The mapping leaves the baseline alone\<close>

lemma foldl_mapping_step_st:
  "ws < length h \<Longrightarrow>
   foldl (mapping_step_st inputs ws) h mappingConfig
     = h[ws := foldl (mapping_step inputs) (h ! ws) mappingConfig]"
  by (induction mappingConfig arbitrary: h) (simp_all add: mapping_step_st_def)

lemma applyMapping_st_eq:
  "applyMapping_st h inputs mappingConfig (Some b)
     = (h @ [foldl (mapping_step inputs) (h ! b) mappingConfig], length h)"
  by (simp add: applyMapping_st_def alloc_def foldl_mapping_step_st)

lemma applyMapping_st_default_eq:
  "applyMapping_st h inputs mappingConfig None
     = (h @ [createDefaultWeatherState,
             foldl (mapping_step inputs) createDefaultWeatherState mappingConfig],
        Suc (length h))"
  by (simp add: applyMapping_st_def createDefaultWeatherState_st_def alloc_def
      foldl_mapping_step_st nth_append)

text \<open>
  Claim C5. \<^verbatim>\<open>applyMapping\<close> leaves the baseline unchanged. On the store it changes no
  object that existed before the call, so the baseline read after the call equals the
  baseline read before; the reference it returns is to a new object, which holds the
  copy of the baseline with the overridden fields.
\<close>

theorem applyMapping_keeps_baseline:
  assumes "case baseState of None \<Rightarrow> True | Some b \<Rightarrow> b < length h"
  shows "take (length h) (fst (applyMapping_st h inputs mappingConfig baseState)) = h
         \<and> map_option ((!) (fst (applyMapping_st h inputs mappingConfig baseState))) baseState
             = map_option ((!) h) baseState
         \<and> length h \<le> snd (applyMapping_st h inputs mappingConfig baseState)
         \<and> snd (applyMapping_st h inputs mappingConfig baseState)
             < length (fst (applyMapping_st h inputs mappingConfig baseState))
         \<and> fst (applyMapping_st h inputs mappingConfig baseState)
               ! snd (applyMapping_st h inputs mappingConfig baseState)
             = applyMapping inputs mappingConfig (map_option ((!) h) baseState)"
proof (cases baseState)
  case None
  then show ?thesis by (simp add: applyMapping_st_default_eq applyMapping_def nth_append)
next
  case (Some b)
  with assms have "b < length h" by simp
  with Some show ?thesis by (simp add: applyMapping_st_eq applyMapping_def nth_append)
qed

theorem applyMapping_keeps_baseline_witness:
  "(case Some 0 of None \<Rightarrow> True | Some b \<Rightarrow> b < length [createDefaultWeatherState])
   \<and> fst (applyMapping_st [createDefaultWeatherState] [''wind'' \<mapsto> Fin 2.0]
        [(''turbulence'', \<lparr>cfg_from = ''wind'', cfg_min = Fin 0, cfg_max = Fin 10\<rparr>)] (Some 0)) ! 0
      = createDefaultWeatherState
   \<and> snd (applyMapping_st [createDefaultWeatherState] [''wind'' \<mapsto> Fin 2.0]
        [(''turbulence'', \<lparr>cfg_from = ''wind'', cfg_min = Fin 0, cfg_max = Fin 10\<rparr>)] (Some 0)) \<noteq> 0"
proof -
  have h: "case Some 0 of None \<Rightarrow> True | Some b \<Rightarrow> b < length [createDefaultWeatherState]"
    by simp
  from applyMapping_keeps_baseline [OF h, of "[''wind'' \<mapsto> Fin 2.0]"
      "[(''turbulence'', \<lparr>cfg_from = ''wind'', cfg_min = Fin 0, cfg_max = Fin 10\<rparr>)]"]
  show ?thesis by auto
qed

section \<open>What the particle update writes\<close>

text \<open>
  Claim C10. With a pure projector and a pure noise field (functions of their
  arguments), \<^verbatim>\<open>updateParticle\<close> writes only the position, the velocity and the life of
  the particle it is given: every weather state in the store, every other particle and
  the tags of the updated particle are as before the call.
\<close>

theorem updateParticle_writes:
  assumes "p < length (particles st)"
  shows "weathers (updateParticle_st st p dt weatherState projectToShape noiseFn time) = weathers st
         \<and> store.more (updateParticle_st st p dt weatherState projectToShape noiseFn time)
             = store.more st
         \<and> (particles (updateParticle_st st p dt weatherState projectToShape noiseFn time))
               [p := particles st ! p] = particles st
         \<and> particle.more
               (particles (updateParticle_st st p dt weatherState projectToShape noiseFn time) ! p)
             = particle.more (particles st ! p)
         \<and> (\<exists>x v l.
               particles (updateParticle_st st p dt weatherState projectToShape noiseFn time) ! p
                 = (particles st ! p)\<lparr>position := Some x, velocity := Some v, life := Some l\<rparr>)"
proof -
  let ?st' = "updateParticle_st st p dt weatherState projectToShape noiseFn time"
  let ?q = "particles st ! p"
  have at_p: "particles ?st' ! p
      = updateParticle ?q dt (weathers st ! weatherState) projectToShape noiseFn time"
    using assms by (simp add: updateParticle_st_def)
  have "\<exists>x v l. updateParticle ?q dt (weathers st ! weatherState) projectToShape noiseFn time
      = ?q\<lparr>position := Some x, velocity := Some v, life := Some l\<rparr>"
    unfolding updateParticle_def Let_def by blast
  with at_p have written: "\<exists>x v l. particles ?st' ! p
      = ?q\<lparr>position := Some x, velocity := Some v, life := Some l\<rparr>"
    by simp
  then have "particle.more (particles ?st' ! p) = particle.more ?q" by auto
  moreover have "weathers ?st' = weathers st" "store.more ?st' = store.more st"
    "(particles ?st')[p := ?q] = particles st"
    by (simp_all add: updateParticle_st_def)
  ultimately show ?thesis using written by blast
qed

theorem updateParticle_writes_witness:
  "0 < length (particles \<lparr>particles = [\<lparr>position = None, velocity = None, life = None,
        \<dots> = ''rain''\<rparr>], weathers = [createDefaultWeatherState]\<rparr>)
   \<and> weathers (updateParticle_st \<lparr>particles = [\<lparr>position = None, velocity = None, life = None,
        \<dots> = ''rain''\<rparr>], weathers = [createDefaultWeatherState]\<rparr> 0 (Fin 0.1) 0 None None None)
      = [createDefaultWeatherState]
   \<and> particle.more (particles (updateParticle_st \<lparr>particles = [\<lparr>position = None,
        velocity = None, life = None, \<dots> = ''rain''\<rparr>], weathers = [createDefaultWeatherState]\<rparr>
        0 (Fin 0.1) 0 None None None) ! 0) = ''rain''"
proof -
  let ?st = "\<lparr>particles = [\<lparr>position = None, velocity = None, life = None, \<dots> = ''rain''\<rparr>],
      weathers = [createDefaultWeatherState]\<rparr>"
  have h: "0 < length (particles ?st)" by simp
  from updateParticle_writes [OF h, of "Fin 0.1" 0 None None None] h
  show ?thesis by simp
qed

lemma round_half_even_cases:
  "round_half_even y = \<lfloor>y\<rfloor> \<or> round_half_even y = \<lfloor>y\<rfloor> + 1"
  by (simp add: round_half_even_def Let_def)

lemma round_half_even_error: "\<bar>of_int (round_half_even y) - y\<bar> \<le> 1 / 2"
proof -
  have "of_int \<lfloor>y\<rfloor> \<le> y" "y < of_int \<lfloor>y\<rfloor> + 1" by linarith+
  then show ?thesis by (auto simp: round_half_even_def Let_def)
qed

lemma round_half_even_of_int [simp]: "round_half_even (of_int n) = n"
  by (simp add: round_half_even_def)

lemma round_half_even_mono:
  assumes "x \<le> y"
  shows "round_half_even x \<le> round_half_even y"
proof (cases "\<lfloor>x\<rfloor> = \<lfloor>y\<rfloor>")
  case True
  with assms show ?thesis by (auto simp: round_half_even_def Let_def)
next
  case False
  with assms have "\<lfloor>x\<rfloor> + 1 \<le> \<lfloor>y\<rfloor>" using floor_mono [OF assms] by linarith
  moreover have "round_half_even x \<le> \<lfloor>x\<rfloor> + 1" using round_half_even_cases [of x] by auto
  moreover have "\<lfloor>y\<rfloor> \<le> round_half_even y" using round_half_even_cases [of y] by auto
  ultimately show ?thesis by linarith
qed

lemma round_half_even_uminus: "round_half_even (- y) = - round_half_even y"
proof (cases "y = of_int \<lfloor>y\<rfloor>")
  case True
  then obtain n where "y = of_int n" ..
  then have "- y = of_int (- n)" by simp
  then show ?thesis unfolding \<open>y = of_int n\<close> by (simp only: round_half_even_of_int)
next
  case False
  then have lt: "of_int \<lfloor>y\<rfloor> < y" by linarith
  have fl: "\<lfloor>- y\<rfloor> = - \<lfloor>y\<rfloor> - 1"
    using lt by (intro floor_unique) (auto, linarith)
  show ?thesis using lt by (auto simp: round_half_even_def Let_def fl)
qed

lemma log2_floor_bounds:
  assumes "x \<noteq> 0"
  shows "2 powi \<lfloor>log 2 \<bar>x\<bar>\<rfloor> \<le> \<bar>x\<bar>" and "\<bar>x\<bar> < 2 powi (\<lfloor>log 2 \<bar>x\<bar>\<rfloor> + 1)"
proof -
  let ?k = "\<lfloor>log 2 \<bar>x\<bar>\<rfloor>"
  have pos: "0 < \<bar>x\<bar>" using assms by simp
  have "(2::real) powr real_of_int ?k = 2 powi ?k" by (rule powr_real_of_int') simp_all
  moreover have "(2::real) powr (real_of_int ?k + 1) = 2 powi (?k + 1)"
    using powr_real_of_int' [of 2 "?k + 1"] by simp
  moreover have "2 powr real_of_int ?k \<le> \<bar>x\<bar> \<and> \<bar>x\<bar> < 2 powr (real_of_int ?k + 1)"
    using floor_log_eq_powr_iff [of "\<bar>x\<bar>" 2 ?k] pos by simp
  ultimately show "2 powi ?k \<le> \<bar>x\<bar>" and "\<bar>x\<bar> < 2 powi (?k + 1)" by simp_all
qed

lemma log2_floor_eqI:
  assumes "2 powi k \<le> \<bar>x\<bar>" and "\<bar>x\<bar> < 2 powi (k + 1)"
  shows "\<lfloor>log 2 \<bar>x\<bar>\<rfloor> = k"
proof -
  have "0 < (2::real) powi k" by simp
  with assms(1) have pos: "0 < \<bar>x\<bar>" by linarith
  have "(2::real) powr real_of_int k = 2 powi k" by (rule powr_real_of_int') simp_all
  moreover have "(2::real) powr (real_of_int k + 1) = 2 powi (k + 1)"
    using powr_real_of_int' [of 2 "k + 1"] by simp
  ultimately show ?thesis using assms pos by (simp add: floor_log_eq_powr_iff)
qed

lemma powi2_pos [simp]: "0 < (2::real) powi e"
  by (rule zero_less_power_int) simp

lemma powi2_mono: "a \<le> b \<Longrightarrow> (2::real) powi a \<le> 2 powi b"
  by (rule power_int_increasing) simp_all

lemma powi2_Suc: "(2::real) powi (e + 1) = 2 * 2 powi e"
  by (simp add: power_int_add)

lemma powi2_diff: "(2::real) powi (a - b) = 2 powi a / 2 powi b"
  by (simp add: power_int_diff)

lemma ulp_exponent_uminus [simp]: "ulp_exponent (- x) = ulp_exponent x"
  by (simp add: ulp_exponent_def)

lemma ulp_exponent_abs [simp]: "ulp_exponent \<bar>x\<bar> = ulp_exponent x"
  by (simp add: ulp_exponent_def)

lemma round_real_uminus: "round_real (- x) = - round_real x"
  by (simp add: round_real_def round_half_even_uminus)

lemma round_real_grid_error:
  assumes "x \<noteq> 0"
  shows "\<bar>round_real x - x\<bar> \<le> 2 powi (ulp_exponent x) / 2"
proof -
  let ?p = "(2::real) powi ulp_exponent x"
  have "round_real x - x = (of_int (round_half_even (x / ?p)) - x / ?p) * ?p"
    using assms by (simp add: round_real_def field_simps)
  then have "\<bar>round_real x - x\<bar> = \<bar>of_int (round_half_even (x / ?p)) - x / ?p\<bar> * ?p"
    by (simp add: abs_mult)
  also have "\<dots> \<le> (1 / 2) * ?p"
    by (intro mult_right_mono round_half_even_error) simp
  finally show ?thesis by simp
qed

lemma round_real_error: "\<bar>round_real x - x\<bar> \<le> \<bar>x\<bar> / 2 ^ 53 + 1 / 2 ^ 1075"
proof (cases "x = 0")
  case True
  then show ?thesis by (simp add: round_real_def)
next
  case False
  let ?k = "\<lfloor>log 2 \<bar>x\<bar>\<rfloor>"
  have err: "\<bar>round_real x - x\<bar> \<le> 2 powi (ulp_exponent x) / 2"
    using False by (rule round_real_grid_error)
  show ?thesis
  proof (cases "?k - 52 \<le> - 1074")
    case True
    then have "ulp_exponent x = - 1074" by (simp add: ulp_exponent_def)
    then have "2 powi (ulp_exponent x) / 2 = (1::real) / 2 ^ 1075"
      by (simp add: power_int_minus_divide)
    with err have "\<bar>round_real x - x\<bar> \<le> 1 / 2 ^ 1075" by simp
    moreover have "0 \<le> \<bar>x\<bar> / 2 ^ 53" by simp
    ultimately show ?thesis by linarith
  next
    case False
    then have "ulp_exponent x = ?k - 52" by (simp add: ulp_exponent_def)
    then have "2 powi (ulp_exponent x) / 2 = (2::real) powi ?k / 2 ^ 53"
      by (simp add: powi2_diff)
    also have "\<dots> \<le> \<bar>x\<bar> / 2 ^ 53"
      using log2_floor_bounds(1) [OF \<open>x \<noteq> 0\<close>] by (simp add: divide_right_mono)
    finally have "\<bar>round_real x - x\<bar> \<le> \<bar>x\<bar> / 2 ^ 53" using err by linarith
    moreover have "(0::real) \<le> 1 / 2 ^ 1075" by simp
    ultimately show ?thesis by linarith
  qed
qed

lemma round_half_even_eqI:
  "of_int n - 1 / 2 < y \<Longrightarrow> y < of_int n + 1 / 2 \<Longrightarrow> round_half_even y = n"
proof -
  assume lo: "of_int n - 1 / 2 < y" and hi: "y < of_int n + 1 / 2"
  show ?thesis
  proof (cases "of_int n \<le> y")
    case True
    with hi have "\<lfloor>y\<rfloor> = n" by (intro floor_unique) auto
    with hi show ?thesis by (simp add: round_half_even_def Let_def)
  next
    case False
    with lo have "\<lfloor>y\<rfloor> = n - 1" by (intro floor_unique) auto
    with lo show ?thesis by (simp add: round_half_even_def Let_def)
  qed
qed

lemma round_real_eval:
  assumes "2 powi k \<le> \<bar>x\<bar>" and "\<bar>x\<bar> < 2 powi (k + 1)" and "e = max (k - 52) (- 1074)"
    and "round_half_even (x / 2 powi e) = n"
  shows "round_real x = of_int n * 2 powi e"
proof -
  have "0 < \<bar>x\<bar>" using assms(1) powi2_pos [of k] by linarith
  then have "x \<noteq> 0" by simp
  moreover have "ulp_exponent x = e"
    using log2_floor_eqI [OF assms(1,2)] assms(3) by (simp add: ulp_exponent_def)
  ultimately show ?thesis using assms(4) by (simp add: round_real_def)
qed

lemma fl_Dbl: "round_real x = r \<Longrightarrow> \<bar>r\<bar> < 2 ^ 1024 \<Longrightarrow> fl x = Dbl r"
  by (auto simp: fl_def Let_def)

lemma round_real_0 [simp]: "round_real 0 = 0"
  by (simp add: round_real_def)

lemma fl_0 [simp]: "fl 0 = Dbl 0"
  by (simp add: fl_def)

lemma fl_eval:
  assumes "2 powi k \<le> \<bar>x\<bar>" and "\<bar>x\<bar> < 2 powi (k + 1)" and "e = max (k - 52) (- 1074)"
    and "round_half_even (x / 2 powi e) = n" and "d = of_int n * 2 powi e" and "\<bar>d\<bar> < 2 ^ 1024"
  shows "fl x = Dbl d"
  using round_real_eval [OF assms(1-4)] assms(5,6) by (intro fl_Dbl) simp_all

lemma fl_sqrt_eval:
  assumes "(2 powi k)\<^sup>2 \<le> q" and "q < (2 powi (k + 1))\<^sup>2" and "e = max (k - 52) (- 1074)"
    and "(0::real) \<le> of_int n - 1 / 2"
    and "((of_int n - 1 / 2) * 2 powi e)\<^sup>2 < q" and "q < ((of_int n + 1 / 2) * 2 powi e)\<^sup>2"
    and "d = of_int n * 2 powi e" and "\<bar>d\<bar> < 2 ^ 1024"
  shows "fl (sqrt q) = Dbl d"
proof (rule fl_eval [OF _ _ assms(3) _ assms(7,8)])
  have "0 \<le> ((2::real) powi k)\<^sup>2" by simp
  with assms(1) have q0: "0 \<le> q" by linarith
  have "2 powi k \<le> sqrt q" using assms(1) by (intro real_le_rsqrt)
  then show "2 powi k \<le> \<bar>sqrt q\<bar>" by simp
  have "sqrt q < 2 powi (k + 1)" using assms(2) by (intro real_less_lsqrt) simp_all
  then show "\<bar>sqrt q\<bar> < 2 powi (k + 1)" using q0 by simp
  have p: "0 < (2::real) powi e" by simp
  have "(of_int n - 1 / 2) * 2 powi e < sqrt q"
    using assms(5) by (intro real_less_rsqrt)
  then have lo: "of_int n - 1 / 2 < sqrt q / 2 powi e" using p by (simp add: pos_less_divide_eq)
  have "sqrt q < (of_int n + 1 / 2) * 2 powi e"
    using assms(4,6) by (intro real_less_lsqrt) (auto intro!: mult_nonneg_nonneg)
  then have hi: "sqrt q / 2 powi e < of_int n + 1 / 2" using p by (simp add: pos_divide_less_eq)
  from lo hi show "round_half_even (sqrt q / 2 powi e) = n" by (rule round_half_even_eqI)
qed

lemma fl_1 [simp]: "fl 1 = Dbl 1"
  by (rule fl_eval [where k = 0 and e = "- 52" and n = "2 ^ 52"])
    (simp_all add: power_int_minus_divide round_half_even_def Let_def)

lemma divide_Dbl: "b \<noteq> 0 \<Longrightarrow> fl (a / b) = d \<Longrightarrow> Dbl a / Dbl b = d"
  by simp

section \<open>Error bounds for the computed length\<close>

lemma round_real_nonneg: "0 \<le> x \<Longrightarrow> 0 \<le> round_real x"
proof -
  assume x: "0 \<le> x"
  have "0 \<le> x / 2 powi ulp_exponent x" using x by simp
  then have "round_half_even 0 \<le> round_half_even (x / 2 powi ulp_exponent x)"
    by (rule round_half_even_mono)
  then have "0 \<le> round_half_even (x / 2 powi ulp_exponent x)"
    using round_half_even_of_int [of 0] by simp
  then show ?thesis by (simp add: round_real_def)
qed

lemma round_real_upper: "0 \<le> x \<Longrightarrow> round_real x \<le> x * (1 + 1 / 2 ^ 53) + 1 / 2 ^ 1075"
  using round_real_error [of x] by (simp add: algebra_simps abs_le_iff)

lemma round_real_lower: "0 \<le> x \<Longrightarrow> x * (1 - 1 / 2 ^ 53) - 1 / 2 ^ 1075 \<le> round_real x"
  using round_real_error [of x] by (simp add: algebra_simps abs_le_iff)

lemma round_real_abs_upper: "\<bar>round_real x\<bar> \<le> \<bar>x\<bar> * (1 + 1 / 2 ^ 53) + 1 / 2 ^ 1075"
  using round_real_error [of x] by (simp add: algebra_simps abs_le_iff) linarith

lemma fl_DblD: "fl x = Dbl r \<Longrightarrow> r = round_real x \<and> \<bar>r\<bar> < 2 ^ 1024"
  by (auto simp: fl_def Let_def split: if_splits)

lemma fl_DblI: "\<bar>round_real x\<bar> < 2 ^ 1024 \<Longrightarrow> fl x = Dbl (round_real x)"
  by (auto simp: fl_def Let_def)

lemma times_DblD: "x * y = Dbl r \<Longrightarrow> \<exists>a b. x = Dbl a \<and> y = Dbl b \<and> fl (a * b) = Dbl r"
  by (cases x; cases y) (auto split: if_splits)

lemma plus_DblD: "x + y = Dbl r \<Longrightarrow> \<exists>a b. x = Dbl a \<and> y = Dbl b \<and> fl (a + b) = Dbl r"
  by (cases x; cases y) (auto split: if_splits)

lemma Math_sqrt64_DblD: "Math_sqrt64 x = Dbl r \<Longrightarrow> \<exists>a. x = Dbl a \<and> 0 \<le> a \<and> fl (sqrt a) = Dbl r"
  by (cases x) (auto split: if_splits)

lemma length64_DblD:
  assumes "length64 m = Dbl L"
  shows "\<exists>a b c. m = (Dbl a, Dbl b, Dbl c)
     \<and> L = round_real (sqrt (round_real (round_real (round_real (a * a) + round_real (b * b))
                                            + round_real (c * c))))
     \<and> \<bar>round_real (a * a)\<bar> < 2 ^ 1024 \<and> \<bar>round_real (b * b)\<bar> < 2 ^ 1024
     \<and> \<bar>round_real (c * c)\<bar> < 2 ^ 1024"
proof -
  obtain v0 v1 v2 where m: "m = (v0, v1, v2)" by (cases m) auto
  from assms obtain S where S: "v0 * v0 + v1 * v1 + v2 * v2 = Dbl S" "fl (sqrt S) = Dbl L"
    unfolding m length64.simps by (blast dest: Math_sqrt64_DblD)
  from plus_DblD [OF S(1)] obtain s1 qc where
    s1: "v0 * v0 + v1 * v1 = Dbl s1" and qc: "v2 * v2 = Dbl qc" and S': "fl (s1 + qc) = Dbl S"
    by blast
  from plus_DblD [OF s1] obtain qa qb where
    qa: "v0 * v0 = Dbl qa" and qb: "v1 * v1 = Dbl qb" and s1': "fl (qa + qb) = Dbl s1"
    by blast
  from times_DblD [OF qa] obtain a where a: "v0 = Dbl a" "fl (a * a) = Dbl qa" by auto
  from times_DblD [OF qb] obtain b where b: "v1 = Dbl b" "fl (b * b) = Dbl qb" by auto
  from times_DblD [OF qc] obtain c where c: "v2 = Dbl c" "fl (c * c) = Dbl qc" by auto
  from fl_DblD [OF a(2)] fl_DblD [OF b(2)] fl_DblD [OF c(2)] fl_DblD [OF s1'] fl_DblD [OF S']
    fl_DblD [OF S(2)] m a(1) b(1) c(1)
  show ?thesis by auto
qed

text \<open>The computed length is at least the exact length, up to four roundings.\<close>

lemma computed_length_lower:
  fixes a b c :: real
  assumes big: "4 \<le> a * a + b * b + c * c"
  shows "sqrt (a * a + b * b + c * c) * (1 - 1 / 2 ^ 53) ^ 4
           \<le> round_real (sqrt (round_real (round_real (round_real (a * a) + round_real (b * b))
                                               + round_real (c * c))))"
proof -
  define t :: real where "t = 1 - 1 / 2 ^ 53"
  define h :: real where "h = 1 / 2 ^ 1075"
  define N2 where "N2 = a * a + b * b + c * c"
  define qa where "qa = round_real (a * a)"
  define qb where "qb = round_real (b * b)"
  define qc where "qc = round_real (c * c)"
  define s1 where "s1 = round_real (qa + qb)"
  define S where "S = round_real (s1 + qc)"
  define L where "L = round_real (sqrt S)"
  have t: "0 < t" "t \<le> 1" and h: "0 \<le> h" by (simp_all add: t_def h_def)
  have "(1 / 2) ^ 3 \<le> t ^ 3" by (rule power_mono) (simp_all add: t_def)
  moreover have "((1::real) / 2) ^ 3 = 1 / 8" by (simp add: power_divide)
  ultimately have t3: "1 / 8 \<le> t ^ 3" by linarith
  have u: "1 - t = 1 / 2 ^ 53" by (simp add: t_def)
  have "1 / 8 * (1 - t) \<le> t ^ 3 * (1 - t)"
    using t3 t(2) by (intro mult_right_mono) simp_all
  moreover have "5 * h \<le> 1 / 8 * (1 / 2 ^ 53)" by (simp add: h_def)
  ultimately have num1: "5 * h \<le> 4 * (t ^ 3 * (1 - t))" and num2: "h \<le> 2 * (t ^ 3 * (1 - t))"
    using h unfolding u by linarith+
  have low: "x * t - h \<le> round_real x" if "0 \<le> x" for x
    using round_real_lower [OF that] by (simp add: t_def h_def)
  have q0: "0 \<le> qa" "0 \<le> qb" "0 \<le> qc"
    by (simp_all add: qa_def qb_def qc_def round_real_nonneg)
  have s10: "0 \<le> s1" using q0 by (simp add: s1_def round_real_nonneg)
  have qa: "a * a * t - h \<le> qa" and qb: "b * b * t - h \<le> qb" and qc: "c * c * t - h \<le> qc"
    by (simp_all add: qa_def qb_def qc_def low)
  have s1: "(qa + qb) * t - h \<le> s1" using q0 by (simp add: s1_def low)
  have S: "(s1 + qc) * t - h \<le> S" using q0 s10 by (simp add: S_def low)
  have qsum: "N2 * t - 3 * h \<le> qa + qb + qc"
    using qa qb qc by (simp add: N2_def algebra_simps)
  have "(N2 * t - 3 * h) * (t * t) \<le> (qa + qb + qc) * (t * t)"
    using qsum t by (intro mult_right_mono) simp_all
  moreover have "(qa + qb) * t * t - h * t \<le> s1 * t"
    using mult_right_mono [OF s1, of t] t by (simp add: algebra_simps)
  moreover have "qc * (t * t) \<le> qc * t"
    using q0 t by (intro mult_left_mono) (simp_all add: mult_le_one)
  moreover have "h * t \<le> h" "3 * h * (t * t) \<le> 3 * h"
    using h t by (simp_all add: mult_left_le mult_le_one)
  ultimately have S1: "N2 * (t * t * t) - 5 * h \<le> S"
    using S by (simp add: algebra_simps)
  have "N2 * (t ^ 3 * (1 - t)) \<ge> 4 * (t ^ 3 * (1 - t))"
    using big t by (intro mult_right_mono) (simp_all add: N2_def)
  with num1 S1 have S2: "N2 * t ^ 4 \<le> S"
    by (simp add: algebra_simps power3_eq_cube power4_eq_xxxx)
  have N20: "0 \<le> N2" using big by (simp add: N2_def)
  have "sqrt (N2 * t ^ 4) \<le> sqrt S" using S2 by simp
  moreover have "sqrt (N2 * t ^ 4) = sqrt N2 * (t * t)"
    using t by (simp add: real_sqrt_mult power4_eq_xxxx real_sqrt_mult_self)
  ultimately have sq: "sqrt N2 * (t * t) \<le> sqrt S" by simp
  have "0 \<le> N2 * t ^ 4" using N20 t by simp
  with S2 have S0: "0 \<le> S" by linarith
  have L: "sqrt S * t - h \<le> L" using S0 by (simp add: L_def low)
  have "sqrt N2 * (t * t) * t \<le> sqrt S * t"
    using sq t by (intro mult_right_mono) simp_all
  with L have L1: "sqrt N2 * (t * t * t) - h \<le> L" by (simp add: algebra_simps)
  have "2 \<le> sqrt N2" using big by (intro real_le_rsqrt) (simp add: N2_def)
  then have "sqrt N2 * (t ^ 3 * (1 - t)) \<ge> 2 * (t ^ 3 * (1 - t))"
    using t by (intro mult_right_mono) simp_all
  with num2 L1 have "sqrt N2 * t ^ 4 \<le> L"
    by (simp add: algebra_simps power3_eq_cube power4_eq_xxxx)
  then show ?thesis
    by (simp only: L_def S_def s1_def qa_def qb_def qc_def N2_def t_def)
qed

lemma square_le_bound:
  fixes x a g e B :: real
  assumes "\<bar>x\<bar> \<le> \<bar>a\<bar> * g + e" and "0 \<le> g" and "0 \<le> e" and "\<bar>a\<bar> \<le> B"
  shows "x * x \<le> a * a * (g * g) + 2 * B * g * e + e * e"
proof -
  have "x * x = \<bar>x\<bar> * \<bar>x\<bar>" by simp
  also have "\<dots> \<le> (\<bar>a\<bar> * g + e) * (\<bar>a\<bar> * g + e)"
    using assms(1) by (intro mult_mono) (auto intro: order_trans [OF abs_ge_zero])
  also have "\<dots> = \<bar>a\<bar> * \<bar>a\<bar> * (g * g) + 2 * \<bar>a\<bar> * g * e + e * e"
    by (simp add: algebra_simps)
  also have "\<dots> \<le> a * a * (g * g) + 2 * B * g * e + e * e"
  proof -
    have "\<bar>a\<bar> * (g * e) \<le> B * (g * e)"
      using assms(2,3,4) by (intro mult_right_mono) simp_all
    then show ?thesis by (simp add: algebra_simps)
  qed
  finally show ?thesis .
qed

lemma abs_le_of_square_le:
  fixes a B :: real
  assumes "a * a \<le> B * B" and "0 \<le> B"
  shows "\<bar>a\<bar> \<le> B"
proof -
  have "a\<^sup>2 \<le> B\<^sup>2" using assms(1) by (simp add: power2_eq_square)
  then have "\<bar>a\<bar> \<le> \<bar>B\<bar>" by (simp only: abs_le_square_iff)
  then show ?thesis using assms(2) by simp
qed

text \<open>
  The rescaling in \<^verbatim>\<open>clampLength\<close>: with \<open>L\<close> the computed length of \<open>(a, b, c)\<close> and
  \<open>cl = min(max(L, 0), 5)\<close>, every component is multiplied by the rounded quotient
  \<open>cl / L\<close>. Nothing overflows, and the exact norm of the result is at most
  \<open>5 * (1 + 2\<^sup>-\<^sup>5\<^sup>0)\<close>.
\<close>

lemma rescaled_norm_bound:
  fixes a b c L cl :: real
  assumes L: "L = round_real (sqrt (round_real (round_real (round_real (a * a) + round_real (b * b))
                                            + round_real (c * c))))"
    and Lpos: "0 < L" and cl: "0 < cl" "cl \<le> 5" "cl \<le> L"
    and B: "\<bar>a\<bar> \<le> 2 ^ 513" "\<bar>b\<bar> \<le> 2 ^ 513" "\<bar>c\<bar> \<le> 2 ^ 513"
  shows "\<bar>round_real (cl / L)\<bar> < 2 ^ 1024"
    and "\<bar>round_real (a * round_real (cl / L))\<bar> < 2 ^ 1024"
    and "\<bar>round_real (b * round_real (cl / L))\<bar> < 2 ^ 1024"
    and "\<bar>round_real (c * round_real (cl / L))\<bar> < 2 ^ 1024"
    and "round_real (a * round_real (cl / L)) * round_real (a * round_real (cl / L))
         + round_real (b * round_real (cl / L)) * round_real (b * round_real (cl / L))
         + round_real (c * round_real (cl / L)) * round_real (c * round_real (cl / L))
         \<le> (5 * (1 + 1 / 2 ^ 50)) * (5 * (1 + 1 / 2 ^ 50))"
proof -
  define w :: real where "w = 1 + 1 / 2 ^ 53"
  define h :: real where "h = 1 / 2 ^ 1075"
  define t :: real where "t = 1 - 1 / 2 ^ 53"
  define r where "r = cl / L"
  define s where "s = round_real r"
  define g where "g = (r * w + h) * w"
  define N2 where "N2 = a * a + b * b + c * c"
  have w: "0 < w" and h: "0 \<le> h" and t: "0 < t" by (simp_all add: w_def h_def t_def)
  have r: "0 \<le> r" "r \<le> 1" using Lpos cl by (simp_all add: r_def)
  have s0: "0 \<le> s" using r(1) by (simp add: s_def round_real_nonneg)
  have s1: "s \<le> r * w + h" using round_real_upper [OF r(1)] by (simp add: s_def w_def h_def)
  have g0: "0 \<le> g" using r w h by (simp add: g_def)
  have "r * w + h \<le> 1 * w + h" using r w by (intro add_right_mono mult_right_mono) simp_all
  then have "g \<le> (w + h) * w" using w by (simp add: g_def)
  moreover have "(w + h) * w \<le> 2" by (simp add: w_def h_def)
  ultimately have g2: "g \<le> 2" by linarith
  have s2: "s \<le> 2"
  proof -
    have "r * w + h \<le> 1 * w + h" using r w by (intro add_right_mono mult_right_mono) simp_all
    moreover have "1 * w + h \<le> 2" by (simp add: w_def h_def)
    ultimately show ?thesis using s1 by linarith
  qed
  show "\<bar>round_real (cl / L)\<bar> < 2 ^ 1024"
  proof -
    have "(2::real) < 2 ^ 1024" by simp
    with s0 s2 show ?thesis unfolding s_def r_def by simp
  qed
  have comp: "\<bar>round_real (x * s)\<bar> \<le> \<bar>x\<bar> * g + h" for x
  proof -
    have "\<bar>round_real (x * s)\<bar> \<le> \<bar>x * s\<bar> * w + h"
      using round_real_abs_upper [of "x * s"] by (simp add: w_def h_def)
    also have "\<bar>x * s\<bar> = \<bar>x\<bar> * s" using s0 by (simp add: abs_mult)
    also have "\<bar>x\<bar> * s * w \<le> \<bar>x\<bar> * (r * w + h) * w"
      using s1 w by (intro mult_right_mono mult_left_mono) simp_all
    finally show ?thesis by (simp add: g_def algebra_simps)
  qed
  have fin: "\<bar>round_real (x * s)\<bar> < 2 ^ 1024" if "\<bar>x\<bar> \<le> 2 ^ 513" for x
  proof -
    have "\<bar>x\<bar> * g \<le> 2 ^ 513 * 2"
      using that g0 g2 by (intro mult_mono) simp_all
    moreover have "2 ^ 513 * 2 + h < (2 ^ 1024 :: real)" by (simp add: h_def)
    ultimately show ?thesis using comp [of x] by linarith
  qed
  from fin [OF B(1)] fin [OF B(2)] fin [OF B(3)]
  show "\<bar>round_real (a * round_real (cl / L))\<bar> < 2 ^ 1024"
    and "\<bar>round_real (b * round_real (cl / L))\<bar> < 2 ^ 1024"
    and "\<bar>round_real (c * round_real (cl / L))\<bar> < 2 ^ 1024"
    by (simp_all add: s_def r_def)
  define E where "E = 3 * (2 * 2 ^ 513 * 2 * h + h * h)"
  have sq: "round_real (x * s) * round_real (x * s) \<le> x * x * (g * g) + (2 * 2 ^ 513 * 2 * h + h * h)"
    if "\<bar>x\<bar> \<le> 2 ^ 513" for x
  proof -
    have "round_real (x * s) * round_real (x * s) \<le> x * x * (g * g) + 2 * 2 ^ 513 * g * h + h * h"
      using comp [of x] g0 h that by (rule square_le_bound)
    moreover have "2 * 2 ^ 513 * g * h \<le> 2 * 2 ^ 513 * 2 * h"
      using g2 h by (intro mult_right_mono mult_left_mono) simp_all
    ultimately show ?thesis by linarith
  qed
  have total: "round_real (a * s) * round_real (a * s) + round_real (b * s) * round_real (b * s)
      + round_real (c * s) * round_real (c * s) \<le> N2 * (g * g) + E"
    using sq [OF B(1)] sq [OF B(2)] sq [OF B(3)] by (simp add: N2_def E_def algebra_simps)
  have N20: "0 \<le> N2" by (simp add: N2_def)
  have "N2 * (g * g) + E \<le> (5 * (1 + 1 / 2 ^ 50)) * (5 * (1 + 1 / 2 ^ 50))"
  proof (cases "4 \<le> N2")
    case False
    have "g * g \<le> 2 * 2" using g0 g2 by (intro mult_mono) simp_all
    then have gg: "g * g \<le> 4" by simp
    have N24: "N2 \<le> 4" using False by simp
    have "N2 * (g * g) \<le> 4 * 4"
      using N24 gg g0 by (intro mult_mono) simp_all
    moreover have "4 * 4 + E \<le> (5 * (1 + 1 / 2 ^ 50)) * (5 * (1 + 1 / 2 ^ 50))"
      by (simp add: E_def h_def)
    ultimately show ?thesis by linarith
  next
    case True
    define N where "N = sqrt N2"
    have N: "0 < N" "N * N = N2" using True by (simp_all add: N_def)
    have low: "N * t ^ 4 \<le> L"
      using computed_length_lower [of a b c] True unfolding N_def N2_def t_def L by simp
    have t4: "0 < t ^ 4" using t by simp
    have "r * (N * t ^ 4) \<le> r * L" using low r(1) by (rule mult_left_mono)
    also have "r * L = cl" using Lpos by (simp add: r_def)
    finally have rN: "r * N * t ^ 4 \<le> 5" using cl(2) by (simp add: algebra_simps)
    have Nle: "N \<le> 2 ^ 514"
    proof -
      have "x * x \<le> 2 ^ 513 * 2 ^ 513" if "\<bar>x\<bar> \<le> 2 ^ 513" for x :: real
      proof -
        have "\<bar>x\<bar> * \<bar>x\<bar> \<le> 2 ^ 513 * 2 ^ 513" using that by (intro mult_mono) simp_all
        then show ?thesis by simp
      qed
      from this [OF B(1)] this [OF B(2)] this [OF B(3)]
      have "N2 \<le> 3 * (2 ^ 513 * 2 ^ 513)" by (simp add: N2_def)
      also have "\<dots> \<le> (2 ^ 514 :: real) * 2 ^ 514" by simp
      finally have "N * N \<le> 2 ^ 514 * 2 ^ 514" using N(2) by simp
      then have "\<bar>N\<bar> \<le> 2 ^ 514" by (rule abs_le_of_square_le) simp
      then show ?thesis by simp
    qed
    have "g * N * t ^ 4 = r * N * t ^ 4 * (w * w) + h * w * N * t ^ 4"
      by (simp add: g_def algebra_simps)
    also have "\<dots> \<le> 5 * (w * w) + h * w * 2 ^ 514 * t ^ 4"
    proof -
      have "r * N * t ^ 4 * (w * w) \<le> 5 * (w * w)"
        using rN w by (intro mult_right_mono) simp_all
      moreover have "h * w * N * t ^ 4 \<le> h * w * 2 ^ 514 * t ^ 4"
        using Nle h w t4 by (intro mult_right_mono mult_left_mono) simp_all
      ultimately show ?thesis by linarith
    qed
    also have "\<dots> \<le> (5 * (1 + 7 / 2 ^ 53) + h * w * 2 ^ 514) * t ^ 4"
    proof -
      have "w * w \<le> (1 + 7 / 2 ^ 53) * t ^ 4" by (simp add: w_def t_def power4_eq_xxxx)
      then show ?thesis by (simp add: algebra_simps)
    qed
    also have "\<dots> \<le> 5 * (1 + 15 / 2 ^ 54) * t ^ 4"
    proof -
      have "5 * (1 + 7 / 2 ^ 53) + h * w * 2 ^ 514 \<le> 5 * (1 + 15 / 2 ^ 54)"
        by (simp add: h_def w_def)
      then show ?thesis using t4 by (intro mult_right_mono) simp_all
    qed
    finally have gN: "g * N \<le> 5 * (1 + 15 / 2 ^ 54)" using t4 by simp
    have "N2 * (g * g) = (g * N) * (g * N)" using N(2) by (simp add: algebra_simps)
    also have "\<dots> \<le> (5 * (1 + 15 / 2 ^ 54)) * (5 * (1 + 15 / 2 ^ 54))"
    proof -
      have a: "0 \<le> g * N" using g0 N(1) by simp
      have b: "(0::real) \<le> 5 * (1 + 15 / 2 ^ 54)" by simp
      from gN gN b a show ?thesis by (rule mult_mono)
    qed
    finally have "N2 * (g * g) \<le> (5 * (1 + 15 / 2 ^ 54)) * (5 * (1 + 15 / 2 ^ 54))" .
    moreover have "(5 * (1 + 15 / 2 ^ 54)) * (5 * (1 + 15 / 2 ^ 54)) + E
        \<le> (5 * (1 + 1 / 2 ^ 50)) * (5 * (1 + 1 / 2 ^ 50))"
      by (simp add: E_def h_def)
    ultimately show ?thesis by linarith
  qed
  with total show "round_real (a * round_real (cl / L)) * round_real (a * round_real (cl / L))
         + round_real (b * round_real (cl / L)) * round_real (b * round_real (cl / L))
         + round_real (c * round_real (cl / L)) * round_real (c * round_real (cl / L))
         \<le> (5 * (1 + 1 / 2 ^ 50)) * (5 * (1 + 1 / 2 ^ 50))"
    unfolding s_def r_def by linarith
qed

lemma square_finite_bound:
  assumes "\<bar>round_real (a * a)\<bar> < 2 ^ 1024"
  shows "\<bar>a\<bar> \<le> 2 ^ 513"
proof -
  define t :: real where "t = 1 - 1 / 2 ^ 53"
  define P :: real where "P = 2 ^ 1024 + 1 / 2 ^ 1075"
  define Q :: real where "Q = 2 ^ 513 * 2 ^ 513"
  have "a * a * t - 1 / 2 ^ 1075 \<le> round_real (a * a)"
    unfolding t_def by (rule round_real_lower) simp
  with assms have "a * a * t \<le> P" unfolding P_def by linarith
  moreover have "a * a * (1 / 2) \<le> a * a * t"
    unfolding t_def by (intro mult_left_mono) simp_all
  moreover have "2 * P \<le> Q" by (simp add: P_def Q_def)
  ultimately have "a * a \<le> Q" by linarith
  then have "a * a \<le> 2 ^ 513 * 2 ^ 513" by (simp only: Q_def)
  then show ?thesis by (rule abs_le_of_square_le) simp
qed

lemma clampLength64_bound:
  assumes "length64 m = Dbl L"
  shows "\<exists>x y z. clampLength64 m (Dbl 0) (Dbl 5) = (Dbl x, Dbl y, Dbl z)
           \<and> sqrt (x * x + y * y + z * z) \<le> 5 * (1 + 1 / 2 ^ 50)"
proof -
  from length64_DblD [OF assms] obtain a b c where m: "m = (Dbl a, Dbl b, Dbl c)"
    and L: "L = round_real (sqrt (round_real (round_real (round_real (a * a) + round_real (b * b))
                                            + round_real (c * c))))"
    and fin: "\<bar>round_real (a * a)\<bar> < 2 ^ 1024" "\<bar>round_real (b * b)\<bar> < 2 ^ 1024"
      "\<bar>round_real (c * c)\<bar> < 2 ^ 1024"
    by blast
  have B: "\<bar>a\<bar> \<le> 2 ^ 513" "\<bar>b\<bar> \<le> 2 ^ 513" "\<bar>c\<bar> \<le> 2 ^ 513"
    by (rule square_finite_bound [OF fin(1)], rule square_finite_bound [OF fin(2)],
        rule square_finite_bound [OF fin(3)])
  have "0 \<le> round_real (round_real (round_real (a * a) + round_real (b * b)) + round_real (c * c))"
    by (intro round_real_nonneg add_nonneg_nonneg) simp_all
  then have L0: "0 \<le> L" unfolding L by (intro round_real_nonneg) simp
  have K0: "(0::real) \<le> 5 * (1 + 1 / 2 ^ 50)" by simp
  show ?thesis
  proof (cases "L = 0")
    case True
    have "\<not> 4 \<le> a * a + b * b + c * c"
    proof
      assume "4 \<le> a * a + b * b + c * c"
      from computed_length_lower [OF this] have "sqrt (a * a + b * b + c * c) * (1 - 1 / 2 ^ 53) ^ 4 \<le> 0"
        using True L by simp
      moreover have "2 \<le> sqrt (a * a + b * b + c * c)"
        using \<open>4 \<le> a * a + b * b + c * c\<close> by (intro real_le_rsqrt) simp
      moreover have "(0::real) < (1 - 1 / 2 ^ 53) ^ 4" by simp
      ultimately have "0 < sqrt (a * a + b * b + c * c) * (1 - 1 / 2 ^ 53) ^ 4"
        "sqrt (a * a + b * b + c * c) * (1 - 1 / 2 ^ 53) ^ 4 \<le> 0"
        by (simp_all del: real_sqrt_gt_0_iff add: mult_pos_pos)
      then show False by linarith
    qed
    then have "a * a + b * b + c * c \<le> (5 * (1 + 1 / 2 ^ 50))\<^sup>2"
      by (simp add: power2_eq_square)
    then have "sqrt (a * a + b * b + c * c) \<le> 5 * (1 + 1 / 2 ^ 50)"
      using K0 by (intro real_le_lsqrt) simp_all
    moreover have "clampLength64 m (Dbl 0) (Dbl 5) = (Dbl a, Dbl b, Dbl c)"
      using assms True m by (simp add: clampLength64_def)
    ultimately show ?thesis by blast
  next
    case False
    with L0 have Lpos: "0 < L" by simp
    define cl where "cl = min (max L 0) 5"
    have cl: "0 < cl" "cl \<le> 5" "cl \<le> L" using Lpos by (simp_all add: cl_def)
    define s where "s = round_real (cl / L)"
    note rb = rescaled_norm_bound [OF L Lpos cl B]
    have sc: "Math_min64 (Math_max64 (Dbl L) (Dbl 0)) (Dbl 5) / Dbl L = Dbl s"
      using False rb(1) by (simp add: cl_def s_def fl_DblI)
    have "clampLength64 m (Dbl 0) (Dbl 5) = mulScalar64 m (Dbl s)"
      using assms False sc by (simp add: clampLength64_def Let_def)
    also have "\<dots> = (Dbl (round_real (a * s)), Dbl (round_real (b * s)), Dbl (round_real (c * s)))"
      using rb(2,3,4) by (simp add: m s_def fl_DblI)
    finally have res: "clampLength64 m (Dbl 0) (Dbl 5)
        = (Dbl (round_real (a * s)), Dbl (round_real (b * s)), Dbl (round_real (c * s)))" .
    have "round_real (a * s) * round_real (a * s) + round_real (b * s) * round_real (b * s)
        + round_real (c * s) * round_real (c * s) \<le> (5 * (1 + 1 / 2 ^ 50))\<^sup>2"
      using rb(5) by (simp only: s_def power2_eq_square)
    then have "sqrt (round_real (a * s) * round_real (a * s) + round_real (b * s) * round_real (b * s)
        + round_real (c * s) * round_real (c * s)) \<le> 5 * (1 + 1 / 2 ^ 50)"
      using K0 by (intro real_le_lsqrt) simp_all
    with res show ?thesis by blast
  qed
qed

section \<open>The speed clamp in double precision\<close>

lemma velocity64_updateParticle64:
  "velocity64 (updateParticle64 p dt ws pr nf time) =
     Some (clampLength64 (mixVec64 (velocity_of64 p)
        (v_sum64 (position_of64 p) ws pr nf (time_or_zero64 time)) smoothingFactor64) (Dbl 0) (Dbl 5))"
  by (simp add: updateParticle64_def Let_def)

lemma normalizeSafe64_zero: "normalizeSafe64 (Dbl 0, Dbl 0, Dbl 0) = (Dbl 0, Dbl 0, Dbl 0)"
  by (simp add: normalizeSafe64_def Let_def)

lemma v_sum64_default:
  "v_sum64 (Dbl 0, Dbl 0, Dbl 0) createDefaultWeatherState64 None None (Dbl 0) = (Dbl 0, Dbl 0, Dbl 0)"
  by (simp add: v_sum64_def v_shape64_def v_large64_def v_small64_def v_direction64_def
      v_vertical64_def wShape64_def clamp01_64_def normalizeSafe64_zero createDefaultWeatherState64_def)

text \<open>
  Claim C1, as the spec states it, fails in double precision. On the default weather
  state, with no projector and no noise field, a particle of velocity \<open>[1, 11, 0]\<close> has
  the smoothed velocity \<open>[0.8, 8.8, 0]\<close> of computed length \<open>8.836288813749809\<close>; the
  rescaling by \<open>5 / len\<close> stores \<open>[0.4526787302125927, 4.97946603233852, 0]\<close>, whose
  length as \<^verbatim>\<open>length\<close> computes it is \<open>5.000000000000001\<close> and whose exact length
  exceeds 5 as well.
\<close>

theorem speed_above_five_counterexample:
  "velocity64 (updateParticle64
      \<lparr>position64 = None, velocity64 = Some (Dbl 1, Dbl 11, Dbl 0), life64 = None\<rparr>
      (Dbl 1) createDefaultWeatherState64 None None None)
     = Some (Dbl (8154735042815927 / 2 ^ 54), Dbl (2803190170967975 / 2 ^ 49), Dbl 0)
   \<and> length64 (Dbl (8154735042815927 / 2 ^ 54), Dbl (2803190170967975 / 2 ^ 49), Dbl 0) = Dbl (5629499534213121 / 2 ^ 50)
   \<and> (5::real) < 5629499534213121 / 2 ^ 50
   \<and> (5::real) < sqrt ((8154735042815927 / 2 ^ 54) * (8154735042815927 / 2 ^ 54) + (2803190170967975 / 2 ^ 49) * (2803190170967975 / 2 ^ 49) + 0 * 0)"
proof -
  have f1: "fl 0.2 = Dbl (3602879701896397 / 2 ^ 54)"
    by (rule fl_eval [where k = "- 3" and e = "- 55" and n = "7205759403792794"]) (simp_all add: power_int_minus_divide round_half_even_def Let_def)
  have f2: "Dbl 1 - Dbl (3602879701896397 / 2 ^ 54) = Dbl (3602879701896397 / 2 ^ 52)"
    by (simp only: minus_double.simps) (rule fl_eval [where k = "- 1" and e = "- 53" and n = "7205759403792794"], simp_all add: power_int_minus_divide round_half_even_def Let_def)
  have f3: "Dbl 1 * Dbl (3602879701896397 / 2 ^ 52) = Dbl (3602879701896397 / 2 ^ 52)"
    by (simp only: times_double.simps) (rule fl_eval [where k = "- 1" and e = "- 53" and n = "7205759403792794"], simp_all add: power_int_minus_divide round_half_even_def Let_def)
  have f4: "Dbl 0 * Dbl (3602879701896397 / 2 ^ 54) = Dbl 0"
    by simp
  have f5: "Dbl (3602879701896397 / 2 ^ 52) + Dbl 0 = Dbl (3602879701896397 / 2 ^ 52)"
    by (simp only: plus_double.simps) (rule fl_eval [where k = "- 1" and e = "- 53" and n = "7205759403792794"], simp_all add: power_int_minus_divide round_half_even_def Let_def)
  have f6: "Dbl 11 * Dbl (3602879701896397 / 2 ^ 52) = Dbl (2476979795053773 / 2 ^ 48)"
    by (simp only: times_double.simps) (rule fl_eval [where k = "3" and e = "- 49" and n = "4953959590107546"], simp_all add: power_int_minus_divide round_half_even_def Let_def)
  have f7: "Dbl (2476979795053773 / 2 ^ 48) + Dbl 0 = Dbl (2476979795053773 / 2 ^ 48)"
    by (simp only: plus_double.simps) (rule fl_eval [where k = "3" and e = "- 49" and n = "4953959590107546"], simp_all add: power_int_minus_divide round_half_even_def Let_def)
  have f8: "Dbl 0 * Dbl (3602879701896397 / 2 ^ 52) = Dbl 0"
    by simp
  have f9: "Dbl 0 + Dbl 0 = Dbl 0"
    by simp
  have f10: "Dbl (3602879701896397 / 2 ^ 52) * Dbl (3602879701896397 / 2 ^ 52) = Dbl (1441151880758559 / 2 ^ 51)"
    by (simp only: times_double.simps) (rule fl_eval [where k = "- 1" and e = "- 53" and n = "5764607523034236"], simp_all add: power_int_minus_divide round_half_even_def Let_def)
  have f11: "Dbl (2476979795053773 / 2 ^ 48) * Dbl (2476979795053773 / 2 ^ 48) = Dbl (5449355549118301 / 2 ^ 46)"
    by (simp only: times_double.simps) (rule fl_eval [where k = "6" and e = "- 46" and n = "5449355549118301"], simp_all add: power_int_minus_divide round_half_even_def Let_def)
  have f12: "Dbl 0 * Dbl 0 = Dbl 0"
    by simp
  have f13: "Dbl (1441151880758559 / 2 ^ 51) + Dbl (5449355549118301 / 2 ^ 46) = Dbl (2747195772696003 / 2 ^ 45)"
    by (simp only: plus_double.simps) (rule fl_eval [where k = "6" and e = "- 46" and n = "5494391545392006"], simp_all add: power_int_minus_divide round_half_even_def Let_def)
  have f14: "Dbl (2747195772696003 / 2 ^ 45) + Dbl 0 = Dbl (2747195772696003 / 2 ^ 45)"
    by (simp only: plus_double.simps) (rule fl_eval [where k = "6" and e = "- 46" and n = "5494391545392006"], simp_all add: power_int_minus_divide round_half_even_def Let_def)
  have f15: "Math_sqrt64 (Dbl (2747195772696003 / 2 ^ 45)) = Dbl (4974388376117715 / 2 ^ 49)"
  proof -
    have "fl (sqrt (2747195772696003 / 2 ^ 45)) = Dbl (4974388376117715 / 2 ^ 49)"
      by (rule fl_sqrt_eval [where k = "3" and e = "- 49" and n = "4974388376117715"])
        (simp_all add: power_int_minus_divide power2_eq_square)
    then show ?thesis by simp
  qed
  have f16: "Math_max64 (Dbl (4974388376117715 / 2 ^ 49)) (Dbl 0) = Dbl (4974388376117715 / 2 ^ 49)"
    by simp
  have f17: "Math_min64 (Dbl (4974388376117715 / 2 ^ 49)) (Dbl 5) = Dbl 5"
    by simp
  have f18: "(Dbl (4974388376117715 / 2 ^ 49) = Dbl 0) = False"
    by simp
  have f19: "Dbl 5 / Dbl (4974388376117715 / 2 ^ 49) = Dbl (2548354700879977 / 2 ^ 52)"
    by (rule divide_Dbl, simp, rule fl_eval [where k = "- 1" and e = "- 53" and n = "5096709401759954"], simp_all add: power_int_minus_divide round_half_even_def Let_def)
  have f20: "Dbl (3602879701896397 / 2 ^ 52) * Dbl (2548354700879977 / 2 ^ 52) = Dbl (8154735042815927 / 2 ^ 54)"
    by (simp only: times_double.simps) (rule fl_eval [where k = "- 2" and e = "- 54" and n = "8154735042815927"], simp_all add: power_int_minus_divide round_half_even_def Let_def)
  have f21: "Dbl (2476979795053773 / 2 ^ 48) * Dbl (2548354700879977 / 2 ^ 52) = Dbl (2803190170967975 / 2 ^ 49)"
    by (simp only: times_double.simps) (rule fl_eval [where k = "2" and e = "- 50" and n = "5606380341935950"], simp_all add: power_int_minus_divide round_half_even_def Let_def)
  have f22: "Dbl 0 * Dbl (2548354700879977 / 2 ^ 52) = Dbl 0"
    by simp
  have f23: "Dbl (8154735042815927 / 2 ^ 54) * Dbl (8154735042815927 / 2 ^ 54) = Dbl (7382950208804093 / 2 ^ 55)"
    by (simp only: times_double.simps) (rule fl_eval [where k = "- 3" and e = "- 55" and n = "7382950208804093"], simp_all add: power_int_minus_divide round_half_even_def Let_def)
  have f24: "Dbl (2803190170967975 / 2 ^ 49) * Dbl (2803190170967975 / 2 ^ 49) = Dbl (872399389907515 / 2 ^ 45)"
    by (simp only: times_double.simps) (rule fl_eval [where k = "4" and e = "- 48" and n = "6979195119260120"], simp_all add: power_int_minus_divide round_half_even_def Let_def)
  have f25: "Dbl (7382950208804093 / 2 ^ 55) + Dbl (872399389907515 / 2 ^ 45) = Dbl (3518437208883201 / 2 ^ 47)"
    by (simp only: plus_double.simps) (rule fl_eval [where k = "4" and e = "- 48" and n = "7036874417766402"], simp_all add: power_int_minus_divide round_half_even_def Let_def)
  have f26: "Dbl (3518437208883201 / 2 ^ 47) + Dbl 0 = Dbl (3518437208883201 / 2 ^ 47)"
    by (simp only: plus_double.simps) (rule fl_eval [where k = "4" and e = "- 48" and n = "7036874417766402"], simp_all add: power_int_minus_divide round_half_even_def Let_def)
  have f27: "Math_sqrt64 (Dbl (3518437208883201 / 2 ^ 47)) = Dbl (5629499534213121 / 2 ^ 50)"
  proof -
    have "fl (sqrt (3518437208883201 / 2 ^ 47)) = Dbl (5629499534213121 / 2 ^ 50)"
      by (rule fl_sqrt_eval [where k = "2" and e = "- 50" and n = "5629499534213121"])
        (simp_all add: power_int_minus_divide power2_eq_square)
    then show ?thesis by simp
  qed
  have mix: "mixVec64 (Dbl 1, Dbl 11, Dbl 0) (Dbl 0, Dbl 0, Dbl 0) smoothingFactor64 = (Dbl (3602879701896397 / 2 ^ 52), Dbl (2476979795053773 / 2 ^ 48), Dbl 0)"
    by (simp only: mixVec64.simps smoothingFactor64_def Let_def f1 f2 f3 f4 f5 f6 f7 f8 f9 f10 f11 f12 f13 f14 f15 f16 f17 f18 f19 f20 f21 f22 f23 f24 f25 f26 f27)
  have len: "length64 (Dbl (3602879701896397 / 2 ^ 52), Dbl (2476979795053773 / 2 ^ 48), Dbl 0) = Dbl (4974388376117715 / 2 ^ 49)"
    by (simp only: length64.simps f1 f2 f3 f4 f5 f6 f7 f8 f9 f10 f11 f12 f13 f14 f15 f16 f17 f18 f19 f20 f21 f22 f23 f24 f25 f26 f27)
  have clamp: "clampLength64 (Dbl (3602879701896397 / 2 ^ 52), Dbl (2476979795053773 / 2 ^ 48), Dbl 0) (Dbl 0) (Dbl 5) = (Dbl (8154735042815927 / 2 ^ 54), Dbl (2803190170967975 / 2 ^ 49), Dbl 0)"
    by (simp only: clampLength64_def Let_def len mulScalar64.simps if_False f1 f2 f3 f4 f5 f6 f7 f8 f9 f10 f11 f12 f13 f14 f15 f16 f17 f18 f19 f20 f21 f22 f23 f24 f25 f26 f27)
  have vel: "velocity64 (updateParticle64
      \<lparr>position64 = None, velocity64 = Some (Dbl 1, Dbl 11, Dbl 0), life64 = None\<rparr>
      (Dbl 1) createDefaultWeatherState64 None None None) = Some (Dbl (8154735042815927 / 2 ^ 54), Dbl (2803190170967975 / 2 ^ 49), Dbl 0)"
    by (simp only: velocity64_updateParticle64 velocity_of64_def position_of64_def
        particle64.select_convs option.case time_or_zero64.simps v_sum64_default mix clamp)
  have len2: "length64 (Dbl (8154735042815927 / 2 ^ 54), Dbl (2803190170967975 / 2 ^ 49), Dbl 0) = Dbl (5629499534213121 / 2 ^ 50)"
    by (simp only: length64.simps f1 f2 f3 f4 f5 f6 f7 f8 f9 f10 f11 f12 f13 f14 f15 f16 f17 f18 f19 f20 f21 f22 f23 f24 f25 f26 f27)
  have c1: "(5::real) < 5629499534213121 / 2 ^ 50" by simp
  have c2: "(5::real) < sqrt ((8154735042815927 / 2 ^ 54) * (8154735042815927 / 2 ^ 54) + (2803190170967975 / 2 ^ 49) * (2803190170967975 / 2 ^ 49) + 0 * 0)"
    by (rule real_less_rsqrt) simp
  show ?thesis by (intro conjI vel len2 c1 c2)
qed

theorem speed_clamp64:
  assumes "length64 (mixVec64 (velocity_of64 p)
      (v_sum64 (position_of64 p) weatherState projectToShape noiseFn (time_or_zero64 time))
      smoothingFactor64) = Dbl L"
  shows "\<exists>x y z. velocity64 (updateParticle64 p dt weatherState projectToShape noiseFn time)
             = Some (Dbl x, Dbl y, Dbl z)
           \<and> sqrt (x * x + y * y + z * z) \<le> 5 * (1 + 1 / 2 ^ 50)"
  using clampLength64_bound [OF assms] by (simp only: velocity64_updateParticle64) blast

theorem speed_clamp64_witness:
  "length64 (mixVec64 (velocity_of64 \<lparr>position64 = None, velocity64 = Some (Dbl 3, Dbl 4, Dbl 0), life64 = None\<rparr>)
      (v_sum64 (position_of64 \<lparr>position64 = None, velocity64 = Some (Dbl 3, Dbl 4, Dbl 0), life64 = None\<rparr>) createDefaultWeatherState64 None None (time_or_zero64 None))
      smoothingFactor64) = Dbl 4
   \<and> (\<exists>x y z. velocity64 (updateParticle64 \<lparr>position64 = None, velocity64 = Some (Dbl 3, Dbl 4, Dbl 0), life64 = None\<rparr> (Dbl 1) createDefaultWeatherState64 None None None)
             = Some (Dbl x, Dbl y, Dbl z)
           \<and> sqrt (x * x + y * y + z * z) \<le> 5 * (1 + 1 / 2 ^ 50))"
proof -
  have f1: "fl 0.2 = Dbl (3602879701896397 / 2 ^ 54)"
    by (rule fl_eval [where k = "- 3" and e = "- 55" and n = "7205759403792794"]) (simp_all add: power_int_minus_divide round_half_even_def Let_def)
  have f2: "Dbl 1 - Dbl (3602879701896397 / 2 ^ 54) = Dbl (3602879701896397 / 2 ^ 52)"
    by (simp only: minus_double.simps) (rule fl_eval [where k = "- 1" and e = "- 53" and n = "7205759403792794"], simp_all add: power_int_minus_divide round_half_even_def Let_def)
  have f3: "Dbl 3 * Dbl (3602879701896397 / 2 ^ 52) = Dbl (1351079888211149 / 2 ^ 49)"
    by (simp only: times_double.simps) (rule fl_eval [where k = "1" and e = "- 51" and n = "5404319552844596"], simp_all add: power_int_minus_divide round_half_even_def Let_def)
  have f4: "Dbl 0 * Dbl (3602879701896397 / 2 ^ 54) = Dbl 0"
    by simp
  have f5: "Dbl (1351079888211149 / 2 ^ 49) + Dbl 0 = Dbl (1351079888211149 / 2 ^ 49)"
    by (simp only: plus_double.simps) (rule fl_eval [where k = "1" and e = "- 51" and n = "5404319552844596"], simp_all add: power_int_minus_divide round_half_even_def Let_def)
  have f6: "Dbl 4 * Dbl (3602879701896397 / 2 ^ 52) = Dbl (3602879701896397 / 2 ^ 50)"
    by (simp only: times_double.simps) (rule fl_eval [where k = "1" and e = "- 51" and n = "7205759403792794"], simp_all add: power_int_minus_divide round_half_even_def Let_def)
  have f7: "Dbl (3602879701896397 / 2 ^ 50) + Dbl 0 = Dbl (3602879701896397 / 2 ^ 50)"
    by (simp only: plus_double.simps) (rule fl_eval [where k = "1" and e = "- 51" and n = "7205759403792794"], simp_all add: power_int_minus_divide round_half_even_def Let_def)
  have f8: "Dbl 0 * Dbl (3602879701896397 / 2 ^ 52) = Dbl 0"
    by simp
  have f9: "Dbl 0 + Dbl 0 = Dbl 0"
    by simp
  have f10: "Dbl (1351079888211149 / 2 ^ 49) * Dbl (1351079888211149 / 2 ^ 49) = Dbl (1621295865853379 / 2 ^ 48)"
    by (simp only: times_double.simps) (rule fl_eval [where k = "2" and e = "- 50" and n = "6485183463413516"], simp_all add: power_int_minus_divide round_half_even_def Let_def)
  have f11: "Dbl (3602879701896397 / 2 ^ 50) * Dbl (3602879701896397 / 2 ^ 50) = Dbl (1441151880758559 / 2 ^ 47)"
    by (simp only: times_double.simps) (rule fl_eval [where k = "3" and e = "- 49" and n = "5764607523034236"], simp_all add: power_int_minus_divide round_half_even_def Let_def)
  have f12: "Dbl 0 * Dbl 0 = Dbl 0"
    by simp
  have f13: "Dbl (1621295865853379 / 2 ^ 48) + Dbl (1441151880758559 / 2 ^ 47) = Dbl (4503599627370497 / 2 ^ 48)"
    by (simp only: plus_double.simps) (rule fl_eval [where k = "4" and e = "- 48" and n = "4503599627370497"], simp_all add: power_int_minus_divide round_half_even_def Let_def)
  have f14: "Dbl (4503599627370497 / 2 ^ 48) + Dbl 0 = Dbl (4503599627370497 / 2 ^ 48)"
    by (simp only: plus_double.simps) (rule fl_eval [where k = "4" and e = "- 48" and n = "4503599627370497"], simp_all add: power_int_minus_divide round_half_even_def Let_def)
  have f15: "Math_sqrt64 (Dbl (4503599627370497 / 2 ^ 48)) = Dbl 4"
  proof -
    have "fl (sqrt (4503599627370497 / 2 ^ 48)) = Dbl 4"
      by (rule fl_sqrt_eval [where k = "2" and e = "- 50" and n = "4503599627370496"])
        (simp_all add: power_int_minus_divide power2_eq_square)
    then show ?thesis by simp
  qed
  have mix: "mixVec64 (Dbl 3, Dbl 4, Dbl 0) (Dbl 0, Dbl 0, Dbl 0) smoothingFactor64 = (Dbl (1351079888211149 / 2 ^ 49), Dbl (3602879701896397 / 2 ^ 50), Dbl 0)"
    by (simp only: mixVec64.simps smoothingFactor64_def Let_def f1 f2 f3 f4 f5 f6 f7 f8 f9 f10 f11 f12 f13 f14 f15)
  have len: "length64 (Dbl (1351079888211149 / 2 ^ 49), Dbl (3602879701896397 / 2 ^ 50), Dbl 0) = Dbl 4"
    by (simp only: length64.simps f1 f2 f3 f4 f5 f6 f7 f8 f9 f10 f11 f12 f13 f14 f15)
  have h: "length64 (mixVec64 (velocity_of64 \<lparr>position64 = None, velocity64 = Some (Dbl 3, Dbl 4, Dbl 0), life64 = None\<rparr>)
      (v_sum64 (position_of64 \<lparr>position64 = None, velocity64 = Some (Dbl 3, Dbl 4, Dbl 0), life64 = None\<rparr>) createDefaultWeatherState64 None None (time_or_zero64 None))
      smoothingFactor64) = Dbl 4"
    by (simp only: velocity_of64_def position_of64_def particle64.select_convs option.case
        time_or_zero64.simps v_sum64_default mix len)
  from speed_clamp64 [OF h, of "Dbl 1"] h show ?thesis by (intro conjI)
qed

end
